theory Spec2Isabelle
  imports Main "HOL-Library.Word"
begin

unbundle bit_operations_syntax

section \<open>Python values used by the handler\<close>

text \<open>
  The repository is one module, \<^verbatim>\<open>sglang_router_proxy/__main__.py\<close>, whose only
  operation is the request handler \<^verbatim>\<open>proxy\<close>. The handler is modelled as a function
  from the request it is given to the arguments it passes to \<^verbatim>\<open>client.request\<close> and
  to \<^verbatim>\<open>Response\<close>; every exception that can leave it is a value \<open>Inl e\<close>.

  \<^item> \<open>bytes\<close>: a Python \<^verbatim>\<open>bytes\<close> object, one \<open>char\<close> per octet.
  \<^item> \<open>latin1\<close>: a \<^verbatim>\<open>str\<close> all of whose code points are below 256, one \<open>char\<close> per code
    point. Starlette decodes header names and values with \<^verbatim>\<open>latin-1\<close>, so every
    header string the handler sees is of this kind; the method is such a string too.
  \<^item> \<open>pystr\<close>: a general \<^verbatim>\<open>str\<close>, a list of Unicode code points.
\<close>

type_synonym bytes = string
type_synonym latin1 = string
type_synonym pystr = "nat list"

datatype exn =
    JSONDecodeError
  | UnicodeDecodeError
  | UnicodeEncodeError
  | RecursionError
  | ValueError
  | TypeError
  | ZeroDivisionError
  | TransportError
  | TimeoutException
  | DecodingError

definition str_lit :: "string \<Rightarrow> pystr" where
  "str_lit s = map of_char s"

subsection \<open>\<^verbatim>\<open>str.lower\<close> and \<^verbatim>\<open>str.encode\<close>\<close>

text \<open>
  \<^verbatim>\<open>str.lower()\<close> on code points below 256: the letters A to Z, and the Latin-1 capitals
  U+00C0 to U+00DE without the multiplication sign U+00D7, move up by 32; every other code
  point is its own lower case.
\<close>

definition lower_char :: "char \<Rightarrow> char" where
  "lower_char c =
     (let n = (of_char c :: nat)
      in if (65 \<le> n \<and> n \<le> 90) \<or> (192 \<le> n \<and> n \<le> 222 \<and> n \<noteq> 215)
         then char_of (n + 32) else c)"

definition str_lower :: "latin1 \<Rightarrow> latin1" where
  "str_lower s = map lower_char s"

text \<open>
  \<^verbatim>\<open>str.encode()\<close> is UTF-8 with the strict error handler: a surrogate code point raises
  \<^verbatim>\<open>UnicodeEncodeError\<close>.
\<close>

definition utf8_code_point :: "nat \<Rightarrow> exn + bytes" where
  "utf8_code_point n =
     (if n < 128 then Inr [char_of n]
      else if n < 2048 then Inr [char_of (192 + n div 64), char_of (128 + n mod 64)]
      else if 55296 \<le> n \<and> n < 57344 then Inl UnicodeEncodeError
      else if n < 65536 then
        Inr [char_of (224 + n div 4096), char_of (128 + n div 64 mod 64), char_of (128 + n mod 64)]
      else if n < 1114112 then
        Inr [char_of (240 + n div 262144), char_of (128 + n div 4096 mod 64),
             char_of (128 + n div 64 mod 64), char_of (128 + n mod 64)]
      else Inl UnicodeEncodeError)"

fun str_encode :: "pystr \<Rightarrow> exn + bytes" where
  "str_encode [] = Inr []"
| "str_encode (n # ns) =
     (case utf8_code_point n of
        Inl e \<Rightarrow> Inl e
      | Inr b \<Rightarrow> (case str_encode ns of Inl e \<Rightarrow> Inl e | Inr bs \<Rightarrow> Inr (b @ bs)))"

text \<open>
  The bytes of a header string: what \<open>str_encode\<close> gives on code points below 256
  (lemma \<open>str_encode_latin1\<close>). An ASCII key is its own encoding.
\<close>

definition utf8_latin1 :: "latin1 \<Rightarrow> bytes" where
  "utf8_latin1 s =
     concat (map (\<lambda>c. if (of_char c :: nat) < 128 then [c]
                        else [char_of (192 + (of_char c :: nat) div 64),
                              char_of (128 + (of_char c :: nat) mod 64)]) s)"

section \<open>\<^verbatim>\<open>hashlib.sha256\<close>\<close>

text \<open>
  SHA-256 as FIPS 180-4 defines it, on 32-bit words: the message is padded to a multiple of
  64 bytes, cut into blocks of sixteen big-endian words, and each block is compressed into
  the state of eight words by 64 rounds. The message schedule is kept as a window of
  sixteen words whose head is the word of the current round.
\<close>

type_synonym u32 = "32 word"
type_synonym sha_state = "u32 \<times> u32 \<times> u32 \<times> u32 \<times> u32 \<times> u32 \<times> u32 \<times> u32"

definition rotr :: "nat \<Rightarrow> u32 \<Rightarrow> u32" where
  "rotr n x = word_rotr n x"

definition Ch :: "u32 \<Rightarrow> u32 \<Rightarrow> u32 \<Rightarrow> u32" where
  "Ch x y z = (x AND y) XOR (NOT x AND z)"

definition Maj :: "u32 \<Rightarrow> u32 \<Rightarrow> u32 \<Rightarrow> u32" where
  "Maj x y z = (x AND y) XOR (x AND z) XOR (y AND z)"

definition big_sigma0 :: "u32 \<Rightarrow> u32" where
  "big_sigma0 x = rotr 2 x XOR rotr 13 x XOR rotr 22 x"

definition big_sigma1 :: "u32 \<Rightarrow> u32" where
  "big_sigma1 x = rotr 6 x XOR rotr 11 x XOR rotr 25 x"

definition small_sigma0 :: "u32 \<Rightarrow> u32" where
  "small_sigma0 x = rotr 7 x XOR rotr 18 x XOR drop_bit 3 x"

definition small_sigma1 :: "u32 \<Rightarrow> u32" where
  "small_sigma1 x = rotr 17 x XOR rotr 19 x XOR drop_bit 10 x"

definition sha256_k :: "u32 list" where
  "sha256_k = [
    1116352408, 1899447441, 3049323471, 3921009573, 961987163, 1508970993, 2453635748, 2870763221,
    3624381080, 310598401, 607225278, 1426881987, 1925078388, 2162078206, 2614888103, 3248222580,
    3835390401, 4022224774, 264347078, 604807628, 770255983, 1249150122, 1555081692, 1996064986,
    2554220882, 2821834349, 2952996808, 3210313671, 3336571891, 3584528711, 113926993, 338241895,
    666307205, 773529912, 1294757372, 1396182291, 1695183700, 1986661051, 2177026350, 2456956037,
    2730485921, 2820302411, 3259730800, 3345764771, 3516065817, 3600352804, 4094571909, 275423344,
    430227734, 506948616, 659060556, 883997877, 958139571, 1322822218, 1537002063, 1747873779,
    1955562222, 2024104815, 2227730452, 2361852424, 2428436474, 2756734187, 3204031479, 3329325298]"

definition sha256_h0 :: sha_state where
  "sha256_h0 = (1779033703, 3144134277, 1013904242, 2773480762,
                1359893119, 2600822924, 528734635, 1541459225)"

fun round_step :: "u32 \<Rightarrow> u32 \<Rightarrow> sha_state \<Rightarrow> sha_state" where
  "round_step k w (a, b, c, d, e, f, g, h) =
     (let t1 = h + big_sigma1 e + Ch e f g + k + w;
          t2 = big_sigma0 a + Maj a b c
      in (t1 + t2, a, b, c, d + t1, e, f, g))"

fun add_state :: "sha_state \<Rightarrow> sha_state \<Rightarrow> sha_state" where
  "add_state (a, b, c, d, e, f, g, h) (a', b', c', d', e', f', g', h') =
     (a + a', b + b', c + c', d + d', e + e', f + f', g + g', h + h')"

fun state_words :: "sha_state \<Rightarrow> u32 list" where
  "state_words (a, b, c, d, e, f, g, h) = [a, b, c, d, e, f, g, h]"

definition next_window :: "u32 list \<Rightarrow> u32 list" where
  "next_window w = tl w @ [small_sigma1 (w ! 14) + w ! 9 + small_sigma0 (w ! 1) + w ! 0]"

fun rounds :: "u32 list \<Rightarrow> u32 list \<Rightarrow> sha_state \<Rightarrow> sha_state" where
  "rounds [] w s = s"
| "rounds (k # ks) w s = rounds ks (next_window w) (round_step k (hd w) s)"

definition compress :: "sha_state \<Rightarrow> u32 list \<Rightarrow> sha_state" where
  "compress s block = add_state s (rounds sha256_k block s)"

fun be_words :: "bytes \<Rightarrow> u32 list" where
  "be_words (a # b # c # d # r) =
     (push_bit 24 (of_char a) + push_bit 16 (of_char b) + push_bit 8 (of_char c) + of_char d)
       # be_words r"
| "be_words r = []"

function sha_blocks :: "sha_state \<Rightarrow> u32 list \<Rightarrow> sha_state" where
  "sha_blocks s ws =
     (if length ws < 16 then s else sha_blocks (compress s (take 16 ws)) (drop 16 ws))"
  by pat_completeness auto
termination
  by (relation "measure (\<lambda>(s, ws). length ws)") auto

declare sha_blocks.simps [simp del]

definition be_bytes :: "nat \<Rightarrow> int \<Rightarrow> bytes" where
  "be_bytes n x = map (\<lambda>i. char_of (x div 256 ^ i)) (rev [0..<n])"

definition sha_pad :: "bytes \<Rightarrow> bytes" where
  "sha_pad m =
     m @ [char_of (128 :: nat)]
       @ replicate ((119 - length m mod 64) mod 64) (char_of (0 :: nat))
       @ be_bytes 8 ((8 * int (length m)) mod 2 ^ 64)"

definition sha256 :: "bytes \<Rightarrow> bytes" where
  "sha256 m =
     concat (map (\<lambda>w. be_bytes 4 (uint w))
                 (state_words (sha_blocks sha256_h0 (be_words (sha_pad m)))))"

section \<open>The rank of a routing key\<close>

text \<open>
  Line 86 of the module:
  \<^verbatim>\<open>rank = int(hashlib.sha256(routing_key.encode()).hexdigest(), 16) % args.dp_size\<close>

  \<open>hexdigest\<close> writes each byte as two lower-case hexadecimal digits. \<open>int_base16\<close> is
  \<^verbatim>\<open>int(s, 16)\<close> on a string of hexadecimal digits, which is all \<open>hexdigest\<close> returns;
  the sign, white space, \<^verbatim>\<open>0x\<close> prefix and underscores that \<^verbatim>\<open>int\<close> also reads do not
  occur there, and the empty string raises \<^verbatim>\<open>ValueError\<close>. \<open>py_mod\<close> is \<^verbatim>\<open>%\<close> on
  integers: it rounds towards minus infinity, as \<open>mod\<close> on \<open>int\<close> does, and raises on a
  zero modulus.
\<close>

definition hex_digit :: "nat \<Rightarrow> char" where
  "hex_digit d = ''0123456789abcdef'' ! d"

definition hexdigest :: "bytes \<Rightarrow> latin1" where
  "hexdigest bs =
     concat (map (\<lambda>c. [hex_digit ((of_char c :: nat) div 16),
                        hex_digit ((of_char c :: nat) mod 16)]) bs)"

definition hex_val :: "char \<Rightarrow> nat option" where
  "hex_val c =
     (let n = (of_char c :: nat)
      in if 48 \<le> n \<and> n \<le> 57 then Some (n - 48)
         else if 97 \<le> n \<and> n \<le> 102 then Some (n - 87)
         else if 65 \<le> n \<and> n \<le> 70 then Some (n - 55)
         else None)"

fun int_digits16 :: "int \<Rightarrow> latin1 \<Rightarrow> exn + int" where
  "int_digits16 acc [] = Inr acc"
| "int_digits16 acc (c # cs) =
     (case hex_val c of
        None \<Rightarrow> Inl ValueError
      | Some d \<Rightarrow> int_digits16 (16 * acc + int d) cs)"

definition int_base16 :: "latin1 \<Rightarrow> exn + int" where
  "int_base16 s = (if s = [] then Inl ValueError else int_digits16 0 s)"

definition py_mod :: "int \<Rightarrow> int \<Rightarrow> exn + int" where
  "py_mod a b = (if b = 0 then Inl ZeroDivisionError else Inr (a mod b))"

definition dp_rank :: "latin1 \<Rightarrow> int \<Rightarrow> exn + int" where
  "dp_rank routing_key dp_size =
     (case str_encode (str_lit routing_key) of
        Inl e \<Rightarrow> Inl e
      | Inr key_bytes \<Rightarrow>
          (case int_base16 (hexdigest (sha256 key_bytes)) of
             Inl e \<Rightarrow> Inl e
           | Inr n \<Rightarrow> py_mod n dp_size))"

text \<open>A byte string read as one big-endian unsigned integer.\<close>

definition be_int :: "bytes \<Rightarrow> int" where
  "be_int bs = foldl (\<lambda>a c. 256 * a + of_char c) 0 bs"

section \<open>Dictionaries and JSON values\<close>

text \<open>
  A Python \<^verbatim>\<open>dict\<close> keeps its keys in insertion order: it is an association list, and
  \<^verbatim>\<open>d[k] = v\<close> replaces the value of a key that is there, in place, or appends the pair.
\<close>

fun dict_set :: "('k \<times> 'v) list \<Rightarrow> 'k \<Rightarrow> 'v \<Rightarrow> ('k \<times> 'v) list" where
  "dict_set [] k v = [(k, v)]"
| "dict_set ((k', v') # d) k v =
     (if k' = k then (k', v) # d else (k', v') # dict_set d k v)"

text \<open>
  What \<^verbatim>\<open>json.loads\<close> returns: \<^verbatim>\<open>None\<close>, a \<^verbatim>\<open>bool\<close>, an \<^verbatim>\<open>int\<close>, a \<^verbatim>\<open>float\<close> (kept as
  its 64 bits, no arithmetic is done on it), a \<^verbatim>\<open>str\<close>, a \<^verbatim>\<open>list\<close> or a \<^verbatim>\<open>dict\<close>.
\<close>

datatype json =
    JNone
  | JBool bool
  | JInt int
  | JFloat "64 word"
  | JStr pystr
  | JList "json list"
  | JDict "(pystr \<times> json) list"

text \<open>
  Line 87, \<^verbatim>\<open>data["data_parallel_rank"] = rank\<close>: item assignment with a \<^verbatim>\<open>str\<close> key works
  on a \<^verbatim>\<open>dict\<close> only; on a \<^verbatim>\<open>list\<close> and on every scalar it raises \<^verbatim>\<open>TypeError\<close>.
\<close>

fun setitem :: "json \<Rightarrow> pystr \<Rightarrow> json \<Rightarrow> exn + json" where
  "setitem (JDict d) k v = Inr (JDict (dict_set d k v))"
| "setitem x k v = Inl TypeError"

text \<open>
  \<^verbatim>\<open>json.loads\<close> and \<^verbatim>\<open>json.dumps\<close> belong to the standard library: the handler is modelled
  for any decoder and any encoder, and what is proved holds whatever bytes they accept.
\<close>

record json_lib =
  json_loads :: "bytes \<Rightarrow> exn + json"
  json_dumps :: "json \<Rightarrow> exn + pystr"

section \<open>Header collections\<close>

text \<open>
  \<^verbatim>\<open>request.headers\<close> is a Starlette \<^verbatim>\<open>Headers\<close>: the list of the request's header lines
  in the order received, a name occurring as often as the client sent it. \<^verbatim>\<open>get\<close> lowers
  the name asked for and returns the value of the first line of that name; \<^verbatim>\<open>items()\<close> is
  the whole list.
\<close>

type_synonym header_list = "(latin1 \<times> latin1) list"

definition headers_get :: "header_list \<Rightarrow> latin1 \<Rightarrow> latin1 option" where
  "headers_get hs name = map_of hs (str_lower name)"

definition headers_items :: "header_list \<Rightarrow> header_list" where
  "headers_items hs = hs"

text \<open>
  Lines 95 to 99, the dictionary comprehension
  \<^verbatim>\<open>{k: v for k, v in request.headers.items() if k.lower() not in ("host", "content-length")}\<close>:
  starting from the empty dictionary, \<open>keep\<close> stores one line after the other.
\<close>

definition forwarded :: "latin1 \<Rightarrow> bool" where
  "forwarded k = (str_lower k \<noteq> ''host'' \<and> str_lower k \<noteq> ''content-length'')"

definition keep :: "header_list \<Rightarrow> latin1 \<times> latin1 \<Rightarrow> header_list" where
  "keep d kv = (if forwarded (fst kv) then dict_set d (fst kv) (snd kv) else d)"

definition forward_headers :: "header_list \<Rightarrow> header_list" where
  "forward_headers hs = foldl keep [] (headers_items hs)"

text \<open>
  \<^verbatim>\<open>resp.headers\<close> is an \<^verbatim>\<open>httpx.Headers\<close>: the header lines of the upstream response as
  bytes, with one text encoding for all of them, found by trial: \<^verbatim>\<open>ascii\<close> if every name
  and value decodes as ASCII, else \<^verbatim>\<open>utf-8\<close> if every one decodes as UTF-8, else
  \<^verbatim>\<open>iso-8859-1\<close>. \<open>utf8_decode\<close> is the strict decoder: no overlong form, no surrogate,
  nothing above U+10FFFF. (\<open>decode_value\<close> is only used with the encoding found for
  the same lines, under which every value decodes.)
\<close>

datatype encoding = Ascii | Utf8 | Latin1

definition is_ascii :: "bytes \<Rightarrow> bool" where
  "is_ascii b = list_all (\<lambda>c. (of_char c :: nat) < 128) b"

definition cont :: "char \<Rightarrow> bool" where
  "cont c = (128 \<le> (of_char c :: nat) \<and> (of_char c :: nat) < 192)"

fun utf8_decode :: "bytes \<Rightarrow> pystr option" where
  "utf8_decode [] = Some []"
| "utf8_decode (a # r) =
     (let x = (of_char a :: nat)
      in if x < 128 then map_option ((#) x) (utf8_decode r)
         else if 194 \<le> x \<and> x < 224 then
           (case r of
              b # r' \<Rightarrow>
                if cont b
                then map_option ((#) ((x - 192) * 64 + (of_char b - 128))) (utf8_decode r')
                else None
            | _ \<Rightarrow> None)
         else if 224 \<le> x \<and> x < 240 then
           (case r of
              b # c # r' \<Rightarrow>
                if cont b \<and> cont c
                   \<and> (if x = 224 then 160 \<le> (of_char b :: nat)
                       else if x = 237 then (of_char b :: nat) < 160 else True)
                then map_option
                       ((#) ((x - 224) * 4096 + (of_char b - 128) * 64 + (of_char c - 128)))
                       (utf8_decode r')
                else None
            | _ \<Rightarrow> None)
         else if 240 \<le> x \<and> x < 245 then
           (case r of
              b # c # d # r' \<Rightarrow>
                if cont b \<and> cont c \<and> cont d
                   \<and> (if x = 240 then 144 \<le> (of_char b :: nat)
                       else if x = 244 then (of_char b :: nat) < 144 else True)
                then map_option
                       ((#) ((x - 240) * 262144 + (of_char b - 128) * 4096
                             + (of_char c - 128) * 64 + (of_char d - 128)))
                       (utf8_decode r')
                else None
            | _ \<Rightarrow> None)
         else None)"

definition httpx_encoding :: "header_list \<Rightarrow> encoding" where
  "httpx_encoding hs =
     (if list_all (\<lambda>kv. is_ascii (fst kv) \<and> is_ascii (snd kv)) hs then Ascii
      else if list_all (\<lambda>kv. utf8_decode (fst kv) \<noteq> None \<and> utf8_decode (snd kv) \<noteq> None) hs
      then Utf8
      else Latin1)"

definition decode_value :: "encoding \<Rightarrow> bytes \<Rightarrow> pystr" where
  "decode_value enc b =
     (case enc of
        Utf8 \<Rightarrow> (case utf8_decode b of Some s \<Rightarrow> s | None \<Rightarrow> str_lit b)
      | _ \<Rightarrow> str_lit b)"

text \<open>
  \<^verbatim>\<open>dict(resp.headers)\<close> reads the \<^verbatim>\<open>httpx.Headers\<close> through the mapping protocol:
  \<^verbatim>\<open>keys()\<close> are the lower-cased names, each once (the keys of a dictionary built by
  \<open>add_key\<close>), and \<^verbatim>\<open>h[k]\<close> decodes the values of all lines of that name and joins them
  with a comma and a space; \<open>add_item\<close> stores \<^verbatim>\<open>h[k]\<close> under \<^verbatim>\<open>k\<close>. (Header names are
  ASCII tokens, the HTTP parser refuses any other: they are kept as they are, and on them
  lowering bytes and lowering a \<^verbatim>\<open>str\<close> agree.)
\<close>

fun join :: "'a list \<Rightarrow> 'a list list \<Rightarrow> 'a list" where
  "join sep [] = []"
| "join sep [x] = x"
| "join sep (x # y # ys) = x @ sep @ join sep (y # ys)"

definition add_key :: "(latin1 \<times> unit) list \<Rightarrow> latin1 \<times> bytes \<Rightarrow> (latin1 \<times> unit) list" where
  "add_key d kv = dict_set d (str_lower (fst kv)) ()"

definition httpx_keys :: "header_list \<Rightarrow> latin1 list" where
  "httpx_keys hs = map fst (foldl add_key [] hs)"

definition httpx_getitem :: "header_list \<Rightarrow> latin1 \<Rightarrow> pystr" where
  "httpx_getitem hs key =
     join (str_lit '', '')
       (map (\<lambda>kv. decode_value (httpx_encoding hs) (snd kv))
            (filter (\<lambda>kv. str_lower (fst kv) = str_lower key) hs))"

definition add_item :: "header_list \<Rightarrow> (latin1 \<times> pystr) list \<Rightarrow> latin1 \<Rightarrow> (latin1 \<times> pystr) list" where
  "add_item hs d k = dict_set d k (httpx_getitem hs k)"

definition httpx_dict :: "header_list \<Rightarrow> (latin1 \<times> pystr) list" where
  "httpx_dict hs = foldl (add_item hs) [] (httpx_keys hs)"

text \<open>
  \<^verbatim>\<open>Response(content, status_code, headers)\<close> is Starlette's. Its \<^verbatim>\<open>init_headers\<close> lowers
  every name and encodes every name and value as Latin-1, which raises
  \<^verbatim>\<open>UnicodeEncodeError\<close> on a code point above 255; then, when no name is
  \<^verbatim>\<open>content-length\<close> and the status code is not below 200, 204 or 304, it appends a
  \<^verbatim>\<open>content-length\<close> header with the length of the body in decimal. (The class has no
  media type, so no \<^verbatim>\<open>content-type\<close> is added.)
\<close>

fun latin1_encode :: "pystr \<Rightarrow> exn + bytes" where
  "latin1_encode [] = Inr []"
| "latin1_encode (n # ns) =
     (if n < 256
      then (case latin1_encode ns of Inl e \<Rightarrow> Inl e | Inr b \<Rightarrow> Inr (char_of n # b))
      else Inl UnicodeEncodeError)"

fun encode_headers :: "(latin1 \<times> pystr) list \<Rightarrow> exn + header_list" where
  "encode_headers [] = Inr []"
| "encode_headers ((k, v) # hs) =
     (case latin1_encode v of
        Inl e \<Rightarrow> Inl e
      | Inr b \<Rightarrow>
          (case encode_headers hs of
             Inl e \<Rightarrow> Inl e
           | Inr raw \<Rightarrow> Inr ((str_lower k, b) # raw)))"

function nat_digits :: "nat \<Rightarrow> string" where
  "nat_digits n =
     (if n < 10 then [char_of (48 + n)] else nat_digits (n div 10) @ [char_of (48 + n mod 10)])"
  by pat_completeness auto
termination
  by (relation "measure (\<lambda>n. n)") auto

declare nat_digits.simps [simp del]

definition content_length_line :: "int \<Rightarrow> bytes \<Rightarrow> header_list \<Rightarrow> header_list" where
  "content_length_line status b raw =
     (if ''content-length'' \<notin> set (map fst raw)
         \<and> \<not> (status < 200 \<or> status = 204 \<or> status = 304)
      then [(''content-length'', nat_digits (length b))]
      else [])"

definition init_headers :: "int \<Rightarrow> bytes \<Rightarrow> (latin1 \<times> pystr) list \<Rightarrow> exn + header_list" where
  "init_headers status b hs =
     (case encode_headers hs of
        Inl e \<Rightarrow> Inl e
      | Inr raw \<Rightarrow> Inr (raw @ content_length_line status b raw))"

section \<open>The handler\<close>

text \<open>
  \<open>args\<close> holds the command-line options the handler reads. \<open>request\<close> is the inbound
  request: the handler reads its method, headers and body; the query string is part of
  the request all the same. \<open>upstream_call\<close> holds the arguments of \<^verbatim>\<open>client.request\<close>
  with the client's timeout. \<open>upstream_response\<close> is the upstream's answer as
  \<^verbatim>\<open>client.request\<close> hands it over: the status code, the header lines as bytes, and
  \<open>r_content\<close>, which is \<^verbatim>\<open>resp.content\<close>, the body after httpx has undone the content
  codings named by \<^verbatim>\<open>Content-Encoding\<close>; \<open>r_body\<close> is the body the upstream sent, which
  the handler cannot read. \<open>response\<close> is the \<^verbatim>\<open>Response\<close> the handler returns: its status
  code, its \<^verbatim>\<open>raw_headers\<close> and its body.
\<close>

record args =
  backend :: pystr
  dp_size :: int
  routing_header :: latin1
  timeout :: int

record request =
  "method" :: latin1
  headers :: header_list
  query_string :: bytes
  body :: bytes

record upstream_call =
  c_method :: latin1
  c_url :: pystr
  c_headers :: header_list
  c_content :: bytes
  c_timeout :: int

record upstream_response =
  r_status_code :: int
  r_headers :: header_list
  r_body :: bytes
  r_content :: bytes

record response =
  status_code :: int
  raw_headers :: header_list
  resp_body :: bytes

text \<open>
  Lines 85 to 87: the body is decoded, the rank computed, and the rank stored in the
  decoded value under \<^verbatim>\<open>"data_parallel_rank"\<close>.
\<close>

definition rewrite_data :: "json_lib \<Rightarrow> int \<Rightarrow> latin1 \<Rightarrow> bytes \<Rightarrow> exn + json" where
  "rewrite_data lib n routing_key b =
     (case json_loads lib b of
        Inl e \<Rightarrow> Inl e
      | Inr data \<Rightarrow>
          (case dp_rank routing_key n of
             Inl e \<Rightarrow> Inl e
           | Inr rank \<Rightarrow> setitem data (str_lit ''data_parallel_rank'') (JInt rank)))"

text \<open>
  Lines 82 to 88: the body that is sent upstream, or the exception raised on the way.
  (Line 89 writes a log line and has no other effect.)
\<close>

definition rewrite_body :: "json_lib \<Rightarrow> args \<Rightarrow> request \<Rightarrow> exn + bytes" where
  "rewrite_body lib a req =
     (if method req = ''POST'' \<and> body req \<noteq> [] then
        (case headers_get (headers req) (routing_header a) of
           None \<Rightarrow> Inr (body req)
         | Some routing_key \<Rightarrow>
             if routing_key = [] then Inr (body req)
             else
               (case rewrite_data lib (dp_size a) routing_key (body req) of
                  Inl e \<Rightarrow> Inl e
                | Inr data \<Rightarrow>
                    (case json_dumps lib data of
                       Inl e \<Rightarrow> Inl e
                     | Inr s \<Rightarrow> str_encode s)))
      else Inr (body req))"

text \<open>
  Lines 103 to 107: the \<^verbatim>\<open>Response\<close> built from the upstream's answer, or the exception
  its constructor raises.
\<close>

definition relay :: "upstream_response \<Rightarrow> exn + response" where
  "relay resp =
     (case init_headers (r_status_code resp) (r_content resp) (httpx_dict (r_headers resp)) of
        Inl e \<Rightarrow> Inl e
      | Inr raw \<Rightarrow>
          Inr \<lparr>status_code = r_status_code resp, raw_headers = raw,
               resp_body = r_content resp\<rparr>)"

text \<open>
  Lines 79 to 107. \<open>client\<close> is the backend as seen through \<^verbatim>\<open>client.request\<close>: it
  answers or raises (a transport error, a timeout, a body that does not decode). The
  handler returns the list of upstream calls it made, and the \<^verbatim>\<open>Response\<close> it built or
  the exception that left it (which the framework turns into a 500 response).
\<close>

definition proxy ::
  "json_lib \<Rightarrow> (upstream_call \<Rightarrow> exn + upstream_response) \<Rightarrow> args \<Rightarrow> pystr \<Rightarrow> request
     \<Rightarrow> upstream_call list \<times> (exn + response)" where
  "proxy lib client a path req =
     (case rewrite_body lib a req of
        Inl e \<Rightarrow> ([], Inl e)
      | Inr body' \<Rightarrow>
          (let call = \<lparr>c_method = method req,
                       c_url = backend a @ str_lit ''/'' @ path,
                       c_headers = forward_headers (headers req),
                       c_content = body',
                       c_timeout = timeout a\<rparr>
           in case client call of
                Inl e \<Rightarrow> ([call], Inl e)
              | Inr resp \<Rightarrow> ([call], relay resp)))"

text \<open>
  The state of a process that serves requests: the options parsed at start-up (the
  module's global \<^verbatim>\<open>args\<close>), the seed the interpreter drew for \<^verbatim>\<open>hash()\<close> of strings
  and bytes, and the log lines written so far. Line 89 writes a line with the routing key
  and the rank once the body has been rewritten; \<open>logged\<close> is what one request adds to
  the log, and \<open>serve\<close> is one request handled by a process.
\<close>

record process =
  options :: args
  hash_seed :: nat
  log_lines :: "(latin1 \<times> int) list"

definition logged :: "json_lib \<Rightarrow> args \<Rightarrow> request \<Rightarrow> (latin1 \<times> int) list" where
  "logged lib a req =
     (if method req = ''POST'' \<and> body req \<noteq> [] then
        (case headers_get (headers req) (routing_header a) of
           None \<Rightarrow> []
         | Some routing_key \<Rightarrow>
             if routing_key = [] then []
             else
               (case rewrite_body lib a req of
                  Inl e \<Rightarrow> []
                | Inr b \<Rightarrow>
                    (case dp_rank routing_key (dp_size a) of
                       Inl e \<Rightarrow> []
                     | Inr rank \<Rightarrow> [(routing_key, rank)])))
      else [])"

definition serve ::
  "json_lib \<Rightarrow> (upstream_call \<Rightarrow> exn + upstream_response) \<Rightarrow> process \<Rightarrow> pystr \<Rightarrow> request
     \<Rightarrow> process \<times> upstream_call list \<times> (exn + response)" where
  "serve lib client p path req =
     (p\<lparr>log_lines := log_lines p @ logged lib (options p) req\<rparr>,
      proxy lib client (options p) path req)"

section \<open>A JSON library to run the handler on\<close>

text \<open>
  To run the handler on concrete requests, \<open>ascii_json\<close> is one library it can be given: a
  reader and a writer for JSON documents in ASCII whose numbers are integers and whose
  strings have no \<^verbatim>\<open>\u\<close> escapes, which is the part of JSON the scenarios of the
  specification use. On such a document the reader is to return what \<^verbatim>\<open>json.loads\<close> returns
  (a repeated key keeps its first place and its last value), and the writer writes as
  \<^verbatim>\<open>json.dumps\<close> does by default: \<^verbatim>\<open>", "\<close> between items, \<^verbatim>\<open>": "\<close> after a key, every
  character outside the printable ASCII range escaped. Anything else is refused. The
  reader recurses on a counter that starts above the length of the document.
\<close>

definition is_ws :: "char \<Rightarrow> bool" where
  "is_ws c = (c = CHR '' '' \<or> c = CHR 0x09 \<or> c = CHR 0x0A \<or> c = CHR 0x0D)"

definition skip_ws :: "bytes \<Rightarrow> bytes" where
  "skip_ws s = dropWhile is_ws s"

definition unescape :: "char \<Rightarrow> nat option" where
  "unescape c =
     (if c = CHR 0x22 then Some 34 else if c = CHR 0x5C then Some 92
      else if c = CHR ''/'' then Some 47 else if c = CHR ''b'' then Some 8
      else if c = CHR ''f'' then Some 12 else if c = CHR ''n'' then Some 10
      else if c = CHR ''r'' then Some 13 else if c = CHR ''t'' then Some 9
      else None)"

fun read_string :: "pystr \<Rightarrow> bytes \<Rightarrow> (pystr \<times> bytes) option" where
  "read_string acc [] = None"
| "read_string acc (c # cs) =
     (if c = CHR 0x22 then Some (rev acc, cs)
      else if c = CHR 0x5C then
        (case cs of
           [] \<Rightarrow> None
         | e # cs' \<Rightarrow>
             (case unescape e of None \<Rightarrow> None | Some n \<Rightarrow> read_string (n # acc) cs'))
      else if (of_char c :: nat) < 32 \<or> 128 \<le> (of_char c :: nat) then None
      else read_string (of_char c # acc) cs)"

definition is_digit :: "char \<Rightarrow> bool" where
  "is_digit c = (48 \<le> (of_char c :: nat) \<and> (of_char c :: nat) \<le> 57)"

fun read_digits :: "nat \<Rightarrow> bytes \<Rightarrow> nat \<times> bytes" where
  "read_digits acc [] = (acc, [])"
| "read_digits acc (c # cs) =
     (if is_digit c then read_digits (10 * acc + (of_char c - 48)) cs else (acc, c # cs))"

definition read_nat :: "bytes \<Rightarrow> (nat \<times> bytes) option" where
  "read_nat s =
     (case s of
        [] \<Rightarrow> None
      | c # cs \<Rightarrow>
          if c = CHR ''0'' then Some (0, cs)
          else if is_digit c then Some (read_digits 0 s)
          else None)"

definition read_int :: "bytes \<Rightarrow> (int \<times> bytes) option" where
  "read_int s =
     (let neg = (s \<noteq> [] \<and> hd s = CHR ''-'')
      in case read_nat (if neg then tl s else s) of
           None \<Rightarrow> None
         | Some (n, r) \<Rightarrow>
             if r \<noteq> [] \<and> hd r \<in> set ''.eE'' then None
             else Some (if neg then - int n else int n, r))"

fun read_value :: "nat \<Rightarrow> bytes \<Rightarrow> (json \<times> bytes) option"
  and read_items :: "nat \<Rightarrow> json list \<Rightarrow> bytes \<Rightarrow> (json list \<times> bytes) option"
  and read_pairs :: "nat \<Rightarrow> (pystr \<times> json) list \<Rightarrow> bytes \<Rightarrow> ((pystr \<times> json) list \<times> bytes) option"
where
  "read_value 0 s = None"
| "read_value (Suc n) s =
     (if s = [] then None
      else if hd s = CHR ''{'' then
        (let r = skip_ws (tl s)
         in if r \<noteq> [] \<and> hd r = CHR ''}'' then Some (JDict [], tl r)
            else (case read_pairs n [] r of None \<Rightarrow> None | Some (d, r') \<Rightarrow> Some (JDict d, r')))
      else if hd s = CHR ''['' then
        (let r = skip_ws (tl s)
         in if r \<noteq> [] \<and> hd r = CHR '']'' then Some (JList [], tl r)
            else (case read_items n [] r of None \<Rightarrow> None | Some (xs, r') \<Rightarrow> Some (JList xs, r')))
      else if hd s = CHR 0x22 then
        (case read_string [] (tl s) of None \<Rightarrow> None | Some (x, r) \<Rightarrow> Some (JStr x, r))
      else if take 4 s = ''true'' then Some (JBool True, drop 4 s)
      else if take 5 s = ''false'' then Some (JBool False, drop 5 s)
      else if take 4 s = ''null'' then Some (JNone, drop 4 s)
      else (case read_int s of None \<Rightarrow> None | Some (i, r) \<Rightarrow> Some (JInt i, r)))"
| "read_items 0 acc s = None"
| "read_items (Suc n) acc s =
     (case read_value n s of
        None \<Rightarrow> None
      | Some (v, r) \<Rightarrow>
          (let r' = skip_ws r
           in if r' = [] then None
              else if hd r' = CHR '','' then read_items n (acc @ [v]) (skip_ws (tl r'))
              else if hd r' = CHR '']'' then Some (acc @ [v], tl r')
              else None))"
| "read_pairs 0 acc s = None"
| "read_pairs (Suc n) acc s =
     (if s \<noteq> [] \<and> hd s = CHR 0x22 then
        (case read_string [] (tl s) of
           None \<Rightarrow> None
         | Some (k, r) \<Rightarrow>
             (let r1 = skip_ws r
              in if r1 \<noteq> [] \<and> hd r1 = CHR '':'' then
                   (case read_value n (skip_ws (tl r1)) of
                      None \<Rightarrow> None
                    | Some (v, r2) \<Rightarrow>
                        (let r3 = skip_ws r2
                         in if r3 = [] then None
                            else if hd r3 = CHR '','' then
                              read_pairs n (dict_set acc k v) (skip_ws (tl r3))
                            else if hd r3 = CHR ''}'' then Some (dict_set acc k v, tl r3)
                            else None))
                 else None))
      else None)"

definition ascii_loads :: "bytes \<Rightarrow> exn + json" where
  "ascii_loads b =
     (case read_value (Suc (length b)) (skip_ws b) of
        None \<Rightarrow> Inl JSONDecodeError
      | Some (v, r) \<Rightarrow> if skip_ws r = [] then Inr v else Inl JSONDecodeError)"

definition int_str :: "int \<Rightarrow> string" where
  "int_str i = (if i < 0 then CHR ''-'' # nat_digits (nat (- i)) else nat_digits (nat i))"

definition hex4 :: "nat \<Rightarrow> string" where
  "hex4 n = [hex_digit (n div 4096 mod 16), hex_digit (n div 256 mod 16),
             hex_digit (n div 16 mod 16), hex_digit (n mod 16)]"

definition escape_code_point :: "nat \<Rightarrow> string" where
  "escape_code_point n =
     (if n = 34 then [CHR 0x5C, CHR 0x22]
      else if n = 92 then [CHR 0x5C, CHR 0x5C]
      else if n = 10 then [CHR 0x5C, CHR ''n'']
      else if n = 13 then [CHR 0x5C, CHR ''r'']
      else if n = 9 then [CHR 0x5C, CHR ''t'']
      else if n = 8 then [CHR 0x5C, CHR ''b'']
      else if n = 12 then [CHR 0x5C, CHR ''f'']
      else if 32 \<le> n \<and> n < 127 then [char_of n]
      else if n < 65536 then [CHR 0x5C, CHR ''u''] @ hex4 n
      else [CHR 0x5C, CHR ''u''] @ hex4 (55296 + (n - 65536) div 1024)
           @ [CHR 0x5C, CHR ''u''] @ hex4 (56320 + (n - 65536) mod 1024))"

definition write_string :: "pystr \<Rightarrow> string" where
  "write_string s = [CHR 0x22] @ concat (map escape_code_point s) @ [CHR 0x22]"

fun write_value :: "json \<Rightarrow> string option" where
  "write_value JNone = Some ''null''"
| "write_value (JBool b) = Some (if b then ''true'' else ''false'')"
| "write_value (JInt i) = Some (int_str i)"
| "write_value (JFloat f) = None"
| "write_value (JStr s) = Some (write_string s)"
| "write_value (JList xs) =
     (case those (map write_value xs) of
        None \<Rightarrow> None
      | Some ts \<Rightarrow> Some (''['' @ join '', '' ts @ '']''))"
| "write_value (JDict kvs) =
     (case those (map (\<lambda>(k, v). map_option (\<lambda>t. write_string k @ '': '' @ t) (write_value v)) kvs) of
        None \<Rightarrow> None
      | Some ts \<Rightarrow> Some (''{'' @ join '', '' ts @ ''}''))"

definition ascii_dumps :: "json \<Rightarrow> exn + pystr" where
  "ascii_dumps v = (case write_value v of None \<Rightarrow> Inl ValueError | Some t \<Rightarrow> Inr (str_lit t))"

definition ascii_json :: json_lib where
  "ascii_json = \<lparr>json_loads = ascii_loads, json_dumps = ascii_dumps\<rparr>"

text \<open>
  A backend that answers every call with status 200, the body it was sent and the headers
  it was sent; and the options of the module's first usage example
  (\<^verbatim>\<open>--dp-size 16\<close>, the other options at their defaults).
\<close>

definition echo_client :: "upstream_call \<Rightarrow> exn + upstream_response" where
  "echo_client c =
     Inr \<lparr>r_status_code = 200, r_headers = c_headers c, r_body = c_content c,
          r_content = c_content c\<rparr>"

definition example_args :: args where
  "example_args =
     \<lparr>backend = str_lit ''http://127.0.0.1:8000'', dp_size = 16,
      routing_header = ''X-SMG-Routing-Key'', timeout = 600\<rparr>"

text \<open>
  The requests of the specification's scenarios: A, a POST with the routing key
  \<^verbatim>\<open>abc\<close> and an object as body; C, a GET with a routing key; D, a POST with a routing
  key whose body is an array; E, a POST without a routing key.
\<close>

definition scenario_A :: request where
  \<open>scenario_A =
     \<lparr>method = ''POST'',
      headers = [(''host'', ''proxy:9000''), (''x-smg-routing-key'', ''abc''),
                 (''content-length'', ''15'')],
      query_string = [], body = ''{"prompt":"hi"}''\<rparr>\<close>

definition scenario_C :: request where
  \<open>scenario_C =
     \<lparr>method = ''GET'',
      headers = [(''host'', ''proxy:9000''), (''x-smg-routing-key'', ''abc'')],
      query_string = ''verbose=1'', body = []\<rparr>\<close>

definition scenario_D :: request where
  \<open>scenario_D =
     \<lparr>method = ''POST'',
      headers = [(''host'', ''proxy:9000''), (''x-smg-routing-key'', ''abc''),
                 (''content-length'', ''6'')],
      query_string = [], body = ''[1, 2]''\<rparr>\<close>

definition scenario_E :: request where
  \<open>scenario_E =
     \<lparr>method = ''POST'',
      headers = [(''host'', ''proxy:9000''), (''content-length'', ''15'')],
      query_string = [], body = ''{"prompt":"hi"}''\<rparr>\<close>

text \<open>
  A request with two header lines of one name, and a backend whose answer has two header
  lines of one name.
\<close>

definition two_accepts :: request where
  "two_accepts =
     \<lparr>method = ''GET'',
      headers = [(''accept'', ''text/plain''), (''accept'', ''application/json'')],
      query_string = [], body = []\<rparr>"

definition two_cookies :: upstream_response where
  "two_cookies =
     \<lparr>r_status_code = 200,
      r_headers = [(''set-cookie'', ''a=1''), (''set-cookie'', ''b=2'')],
      r_body = ''ok'', r_content = ''ok''\<rparr>"

definition cookie_client :: "upstream_call \<Rightarrow> exn + upstream_response" where
  "cookie_client c = Inr two_cookies"

text \<open>
  A client that gives one fixed answer, and four answers: one whose header names are in
  mixed case, one of them repeated; one with a header value that is UTF-8 for U+00E9
  (bytes C3 A9); one with a header value that is UTF-8 for U+20AC (bytes E2 82 AC); and one
  whose body is the gzip coding of \<^verbatim>\<open>ok\<close>, which httpx hands over decoded.
\<close>

definition answering :: "upstream_response \<Rightarrow> upstream_call \<Rightarrow> exn + upstream_response" where
  "answering resp c = Inr resp"

definition mixed_case_answer :: upstream_response where
  "mixed_case_answer =
     \<lparr>r_status_code = 200,
      r_headers = [(''Content-Type'', ''text/plain''), (''Vary'', ''accept''),
                   (''vary'', ''origin'')],
      r_body = ''ok'', r_content = ''ok''\<rparr>"

definition utf8_value_answer :: upstream_response where
  "utf8_value_answer =
     \<lparr>r_status_code = 200,
      r_headers = [(''x-name'', [CHR 0xC3, CHR 0xA9]), (''content-length'', ''2'')],
      r_body = ''ok'', r_content = ''ok''\<rparr>"

definition wide_value_answer :: upstream_response where
  "wide_value_answer =
     \<lparr>r_status_code = 200,
      r_headers = [(''x-price'', [CHR 0xE2, CHR 0x82, CHR 0xAC]), (''content-length'', ''2'')],
      r_body = ''ok'', r_content = ''ok''\<rparr>"

definition gzip_answer :: upstream_response where
  "gzip_answer =
     \<lparr>r_status_code = 200,
      r_headers = [(''content-encoding'', ''gzip''), (''content-length'', ''22'')],
      r_body = map char_of [31, 139, 8, 0, 0, 0, 0, 0, 2, 3, 203, 207, 6, 0, 71, 221, 220, 121,
                            2, 0, 0, 0 :: nat],
      r_content = ''ok''\<rparr>"

text \<open>
  Two processes that differ in everything but the partition count: the backend, the
  time-out, the hash seed and the log written so far.
\<close>

definition process_1 :: process where
  "process_1 = \<lparr>options = example_args, hash_seed = 1, log_lines = []\<rparr>"

definition process_2 :: process where
  "process_2 =
     \<lparr>options = example_args\<lparr>backend := str_lit ''http://gpu01:8000'', timeout := 5\<rparr>,
      hash_seed = 2, log_lines = [(''xyz'', 4)]\<rparr>"

text \<open>A POST whose routing key is the single byte E9.\<close>

definition latin1_key_request :: request where
  \<open>latin1_key_request =
     \<lparr>method = ''POST'',
      headers = [(''x-smg-routing-key'', [CHR 0xE9])],
      query_string = [], body = ''{"prompt":"hi"}''\<rparr>\<close>

text \<open>A POST whose body already has a \<^verbatim>\<open>data_parallel_rank\<close> field.\<close>

definition overwrite_request :: request where
  \<open>overwrite_request =
     \<lparr>method = ''POST'',
      headers = [(''x-smg-routing-key'', ''abc'')],
      query_string = [], body = ''{"data_parallel_rank": 3, "prompt": "hi"}''\<rparr>\<close>

section \<open>The rank is the digest modulo the partition count\<close>

lemma hex_val_hex_digit: "d < 16 \<Longrightarrow> hex_val (hex_digit d) = Some d"
proof -
  assume "d < 16"
  then have "d = 0 \<or> d = 1 \<or> d = 2 \<or> d = 3 \<or> d = 4 \<or> d = 5 \<or> d = 6 \<or> d = 7 \<or> d = 8
      \<or> d = 9 \<or> d = 10 \<or> d = 11 \<or> d = 12 \<or> d = 13 \<or> d = 14 \<or> d = 15"
    by arith
  then show ?thesis
    by (elim disjE) (simp_all add: hex_val_def hex_digit_def)
qed

lemma int_digits16_hexdigest:
  "int_digits16 acc (hexdigest bs) = Inr (foldl (\<lambda>a c. 256 * a + of_char c) acc bs)"
proof (induction bs arbitrary: acc)
  case Nil
  show ?case by (simp add: hexdigest_def)
next
  case (Cons b bs)
  have hi: "(of_char b :: nat) div 16 < 16"
    using nat_of_char_less_256 [of b] by (simp add: less_mult_imp_div_less)
  have lo: "(of_char b :: nat) mod 16 < 16" by simp
  have split: "hexdigest (b # bs) =
      hex_digit ((of_char b :: nat) div 16) # hex_digit ((of_char b :: nat) mod 16) # hexdigest bs"
    by (simp add: hexdigest_def)
  have val: "256 * acc + 16 * int ((of_char b :: nat) div 16) + int ((of_char b :: nat) mod 16)
      = 256 * acc + of_char b"
  proof -
    have "int (of_char b) = 16 * int ((of_char b :: nat) div 16) + int ((of_char b :: nat) mod 16)"
      by (metis mult_div_mod_eq of_nat_add of_nat_mult of_nat_numeral)
    then show ?thesis by (simp add: of_nat_of_char [symmetric, where ?'a = int])
  qed
  show ?case
    unfolding split
    by (simp add: hex_val_hex_digit [OF hi] hex_val_hex_digit [OF lo] val Cons.IH)
qed

lemma length_sha256: "length (sha256 m) = 32"
  by (cases "sha_blocks sha256_h0 (be_words (sha_pad m))" rule: state_words.cases)
    (simp add: sha256_def be_bytes_def)

lemma int_base16_hexdigest_sha256: "int_base16 (hexdigest (sha256 m)) = Inr (be_int (sha256 m))"
proof -
  have "sha256 m \<noteq> []" using length_sha256 [of m] by auto
  then have "hexdigest (sha256 m) \<noteq> []"
    by (cases "sha256 m") (simp_all add: hexdigest_def)
  then show ?thesis
    by (simp add: int_base16_def int_digits16_hexdigest be_int_def)
qed

lemma utf8_code_point_latin1:
  "utf8_code_point (of_char c) =
     Inr (if (of_char c :: nat) < 128 then [c]
          else [char_of (192 + (of_char c :: nat) div 64), char_of (128 + (of_char c :: nat) mod 64)])"
proof -
  have "(of_char c :: nat) < 2048"
    using nat_of_char_less_256 [of c] by linarith
  then show ?thesis by (simp add: utf8_code_point_def)
qed

lemma str_encode_latin1: "str_encode (str_lit s) = Inr (utf8_latin1 s)"
  by (induction s) (simp_all add: str_lit_def utf8_latin1_def utf8_code_point_latin1)

lemma dp_rank_eq:
  "N \<noteq> 0 \<Longrightarrow> dp_rank k N = Inr (be_int (sha256 (utf8_latin1 k)) mod N)"
  by (simp add: dp_rank_def str_encode_latin1 int_base16_hexdigest_sha256 py_mod_def)

lemma sha256_abc:
  "sha256 ''abc'' = map char_of [186, 120, 22, 191, 143, 1, 207, 234, 65, 65, 64, 222, 93, 174, 34, 35,
  176, 3, 97, 163, 150, 23, 122, 156, 180, 16, 255, 97, 242, 0, 21, 173 :: int]"
  by code_simp

lemma be_int_sha256_abc: "be_int (sha256 ''abc'') mod 16 = 13"
  unfolding sha256_abc by (simp add: be_int_def)

lemma utf8_latin1_abc: "utf8_latin1 ''abc'' = ''abc''"
  by (simp add: utf8_latin1_def)

lemma dp_rank_abc: "dp_rank ''abc'' 16 = Inr 13"
  by (simp add: dp_rank_eq utf8_latin1_abc be_int_sha256_abc)

section \<open>Dictionaries and the forwarded request headers\<close>

lemma map_of_dict_set: "map_of (dict_set d k v) = (map_of d)(k \<mapsto> v)"
  by (induction d) (auto simp: fun_eq_iff)

lemma filter_dict_set:
  "filter (\<lambda>(f, x). f \<noteq> k) (dict_set d k v) = filter (\<lambda>(f, x). f \<noteq> k) d"
  by (induction d) auto

lemma keys_dict_set: "fst ` set (dict_set d k v) = insert k (fst ` set d)"
  by (simp add: dom_map_of_conv_image_fst [symmetric] map_of_dict_set)

lemma dict_set_new: "k \<notin> fst ` set d \<Longrightarrow> dict_set d k v = d @ [(k, v)]"
  by (induction d) auto

lemma distinct_dict_set: "distinct (map fst d) \<Longrightarrow> distinct (map fst (dict_set d k v))"
proof (induction d)
  case Nil
  show ?case by simp
next
  case (Cons p d)
  obtain k' v' where p: "p = (k', v')" by (cases p)
  show ?case
  proof (cases "k' = k")
    case True
    with Cons.prems p show ?thesis by simp
  next
    case False
    have "k' \<notin> fst ` set (dict_set d k v)"
      using Cons.prems p False by (simp add: keys_dict_set)
    with Cons p False show ?thesis by simp
  qed
qed

lemma set_dict_set: "set (dict_set d k v) \<subseteq> insert (k, v) (set d)"
  by (induction d) (auto split: if_splits)

lemma forward_headers_keep: "forward_headers hs = foldl keep [] hs"
  by (simp add: forward_headers_def headers_items_def)

lemma foldl_keep_forwarded:
  "(k, v) \<in> set (foldl keep d hs) \<Longrightarrow> (k, v) \<in> set d \<or> forwarded k"
proof (induction hs arbitrary: d)
  case Nil
  then show ?case by simp
next
  case (Cons h hs)
  from Cons.IH [of "keep d h"] Cons.prems
  have "(k, v) \<in> set (keep d h) \<or> forwarded k" by simp
  then show ?case
    using set_dict_set [of d "fst h" "snd h"] by (auto simp: keep_def split: if_splits)
qed

lemma foldl_keep_distinct:
  "distinct (map fst d) \<Longrightarrow> distinct (map fst (foldl keep d hs))"
  by (induction hs arbitrary: d) (simp_all add: keep_def distinct_dict_set)

lemma map_of_keep:
  "map_of (keep d (k', v')) k = (if forwarded k' \<and> k = k' then Some v' else map_of d k)"
  by (simp add: keep_def map_of_dict_set)

lemma foldl_keep_map_of:
  "map_of (foldl keep d hs) k =
     (case map_of (rev hs) k of
        None \<Rightarrow> map_of d k
      | Some v \<Rightarrow> if forwarded k then Some v else map_of d k)"
proof (induction hs arbitrary: d)
  case Nil
  show ?case by simp
next
  case (Cons h hs)
  obtain k' v' where h: "h = (k', v')" by (cases h)
  show ?case
    by (simp add: Cons.IH h map_of_keep map_add_def split: option.splits)
qed

lemma foldl_keep_distinct_names:
  "distinct (map fst hs) \<Longrightarrow> fst ` set d \<inter> fst ` set hs = {} \<Longrightarrow>
   foldl keep d hs = d @ filter (\<lambda>kv. forwarded (fst kv)) hs"
proof (induction hs arbitrary: d)
  case Nil
  show ?case by simp
next
  case (Cons h hs)
  have new: "fst h \<notin> fst ` set d" using Cons.prems by auto
  have step: "keep d h = d @ filter (\<lambda>kv. forwarded (fst kv)) [h]"
    using new by (cases h) (simp add: keep_def dict_set_new)
  have "fst ` set (keep d h) \<inter> fst ` set hs = {}"
    using Cons.prems unfolding step by (auto split: if_splits)
  with Cons.IH [of "keep d h"] Cons.prems
  have "foldl keep (keep d h) hs = keep d h @ filter (\<lambda>kv. forwarded (fst kv)) hs"
    by simp
  then show ?case by (simp add: step)
qed

section \<open>The response headers\<close>

lemma foldl_add_key_keys:
  "fst ` set (foldl add_key d hs) = fst ` set d \<union> str_lower ` fst ` set hs"
  by (induction hs arbitrary: d) (auto simp: add_key_def keys_dict_set)

lemma foldl_add_key_distinct:
  "distinct (map fst d) \<Longrightarrow> distinct (map fst (foldl add_key d hs))"
  by (induction hs arbitrary: d) (simp_all add: add_key_def distinct_dict_set)

lemma distinct_httpx_keys: "distinct (httpx_keys hs)"
  by (simp add: httpx_keys_def foldl_add_key_distinct)

lemma set_httpx_keys: "set (httpx_keys hs) = str_lower ` fst ` set hs"
  using foldl_add_key_keys [of "[]" hs] by (simp add: httpx_keys_def)

lemma foldl_add_item:
  "distinct ks \<Longrightarrow> fst ` set d \<inter> set ks = {} \<Longrightarrow>
   foldl (add_item hs) d ks = d @ map (\<lambda>k. (k, httpx_getitem hs k)) ks"
proof (induction ks arbitrary: d)
  case Nil
  show ?case by simp
next
  case (Cons k ks)
  have step: "add_item hs d k = d @ [(k, httpx_getitem hs k)]"
    using Cons.prems by (simp add: add_item_def dict_set_new)
  have "fst ` set (add_item hs d k) \<inter> set ks = {}"
    using Cons.prems unfolding step by auto
  with Cons.IH [of "add_item hs d k"] Cons.prems
  have "foldl (add_item hs) (add_item hs d k) ks =
      add_item hs d k @ map (\<lambda>k. (k, httpx_getitem hs k)) ks"
    by simp
  then show ?case by (simp add: step)
qed

lemma httpx_dict_eq: "httpx_dict hs = map (\<lambda>k. (k, httpx_getitem hs k)) (httpx_keys hs)"
  using foldl_add_item [of "httpx_keys hs" "[]" hs]
  by (simp add: httpx_dict_def distinct_httpx_keys)

lemma foldl_add_key_plain:
  "distinct (map fst hs) \<Longrightarrow> \<forall>k \<in> fst ` set hs. str_lower k = k \<Longrightarrow>
   fst ` set d \<inter> fst ` set hs = {} \<Longrightarrow>
   foldl add_key d hs = d @ map (\<lambda>kv. (fst kv, ())) hs"
proof (induction hs arbitrary: d)
  case Nil
  show ?case by simp
next
  case (Cons h hs)
  have low: "str_lower (fst h) = fst h" using Cons.prems by simp
  have step: "add_key d h = d @ [(fst h, ())]"
    using Cons.prems by (simp add: add_key_def low dict_set_new)
  have "fst ` set (add_key d h) \<inter> fst ` set hs = {}"
    using Cons.prems unfolding step by auto
  with Cons.IH [of "add_key d h"] Cons.prems
  have "foldl add_key (add_key d h) hs = add_key d h @ map (\<lambda>kv. (fst kv, ())) hs"
    by simp
  then show ?case by (simp add: step)
qed

lemma httpx_keys_plain:
  "distinct (map fst hs) \<Longrightarrow> \<forall>k \<in> fst ` set hs. str_lower k = k \<Longrightarrow>
   httpx_keys hs = map fst hs"
  using foldl_add_key_plain [of hs "[]"] by (simp add: httpx_keys_def comp_def)

lemma filter_name_distinct:
  "distinct (map fst hs) \<Longrightarrow> (k, v) \<in> set hs \<Longrightarrow> filter (\<lambda>kv. fst kv = k) hs = [(k, v)]"
proof (induction hs)
  case Nil
  then show ?case by simp
next
  case (Cons h hs)
  show ?case
  proof (cases "h = (k, v)")
    case True
    have "filter (\<lambda>kv. fst kv = k) hs = []"
      using Cons.prems True by (auto simp: filter_empty_conv)
    with True show ?thesis by simp
  next
    case False
    with Cons.prems have mem: "(k, v) \<in> set hs" by simp
    then have "k \<in> fst ` set hs" by force
    then have "fst h \<noteq> k" using Cons.prems by auto
    with Cons.IH Cons.prems mem show ?thesis by simp
  qed
qed

lemma lower_char_idem: "lower_char (lower_char c) = lower_char c"
proof -
  have n: "(of_char c :: nat) < 256" by simp
  show ?thesis
  proof (cases "(65 \<le> (of_char c :: nat) \<and> (of_char c :: nat) \<le> 90)
      \<or> (192 \<le> (of_char c :: nat) \<and> (of_char c :: nat) \<le> 222 \<and> (of_char c :: nat) \<noteq> 215)")
    case True
    then have l: "lower_char c = char_of ((of_char c :: nat) + 32)"
      by (simp add: lower_char_def)
    have lt: "(of_char c :: nat) + 32 < 256" using True by linarith
    have m: "((of_char c :: nat) + 32) mod 256 = of_char c + 32"
      by (rule mod_less [OF lt])
    have u: "\<not> ((65 \<le> (of_char c :: nat) + 32 \<and> (of_char c :: nat) + 32 \<le> 90)
      \<or> (192 \<le> (of_char c :: nat) + 32 \<and> (of_char c :: nat) + 32 \<le> 222 \<and> (of_char c :: nat) + 32 \<noteq> 215))"
      using True by linarith
    have "lower_char (char_of ((of_char c :: nat) + 32)) = char_of ((of_char c :: nat) + 32)"
      unfolding lower_char_def Let_def of_char_of m using u by (simp only: if_False)
    then show ?thesis by (simp only: l)
  next
    case False
    then have "lower_char c = c" unfolding lower_char_def Let_def by (simp only: if_False)
    then show ?thesis by simp
  qed
qed

lemma str_lower_idem: "str_lower (str_lower k) = str_lower k"
  by (simp add: str_lower_def lower_char_idem)

lemma httpx_keys_lower: "k \<in> set (httpx_keys hs) \<Longrightarrow> str_lower k = k"
  by (auto simp: set_httpx_keys str_lower_idem)

lemma latin1_encode_str_lit: "latin1_encode (str_lit s) = Inr s"
  by (induction s) (simp_all add: str_lit_def)

lemma str_lit_join: "str_lit (join sep xs) = join (str_lit sep) (map str_lit xs)"
  by (induction sep xs rule: join.induct) (simp_all add: str_lit_def)

lemma httpx_getitem_ascii:
  "httpx_encoding hs = Ascii \<Longrightarrow>
   httpx_getitem hs k =
     str_lit (join '', '' (map snd (filter (\<lambda>kv. str_lower (fst kv) = str_lower k) hs)))"
  by (simp add: httpx_getitem_def decode_value_def str_lit_join comp_def)

lemma latin1_encode_Inl:
  "latin1_encode v = Inl e \<Longrightarrow> e = UnicodeEncodeError \<and> (\<exists>n \<in> set v. 256 \<le> n)"
  by (induction v) (auto split: if_splits sum.splits)

lemma latin1_encode_Inr:
  "latin1_encode v = Inr b \<Longrightarrow> b = map char_of v \<and> (\<forall>n \<in> set v. n < 256)"
  by (induction v arbitrary: b) (auto split: if_splits sum.splits)

lemma encode_headers_Inl:
  "encode_headers hs = Inl e \<Longrightarrow>
   e = UnicodeEncodeError \<and> (\<exists>kv \<in> set hs. \<exists>n \<in> set (snd kv). 256 \<le> n)"
proof (induction hs)
  case Nil
  then show ?case by simp
next
  case (Cons h hs)
  obtain k v where h: "h = (k, v)" by (cases h)
  show ?case
  proof (cases "latin1_encode v")
    case (Inl e')
    with Cons.prems h have "e = e'" by simp
    with latin1_encode_Inl [OF Inl] h show ?thesis by auto
  next
    case (Inr b)
    with Cons.prems h have "encode_headers hs = Inl e"
      by (cases "encode_headers hs") simp_all
    with Cons.IH show ?thesis by auto
  qed
qed

lemma encode_headers_Inr:
  "encode_headers hs = Inr raw \<Longrightarrow>
   raw = map (\<lambda>kv. (str_lower (fst kv), map char_of (snd kv))) hs
   \<and> (\<forall>kv \<in> set hs. \<forall>n \<in> set (snd kv). n < 256)"
proof (induction hs arbitrary: raw)
  case Nil
  then show ?case by simp
next
  case (Cons h hs)
  obtain k v where h: "h = (k, v)" by (cases h)
  from Cons.prems h obtain b where b: "latin1_encode v = Inr b"
    by (cases "latin1_encode v") simp_all
  from Cons.prems h b obtain raw' where r: "encode_headers hs = Inr raw'"
    by (cases "encode_headers hs") simp_all
  from Cons.prems h b r have "raw = (str_lower k, b) # raw'" by simp
  with latin1_encode_Inr [OF b] Cons.IH [OF r] h show ?case by simp
qed

lemma encode_headers_fails_iff:
  "(\<exists>e. encode_headers hs = Inl e) \<longleftrightarrow> (\<exists>kv \<in> set hs. \<exists>n \<in> set (snd kv). 256 \<le> n)"
proof
  assume "\<exists>e. encode_headers hs = Inl e"
  then show "\<exists>kv \<in> set hs. \<exists>n \<in> set (snd kv). 256 \<le> n"
    using encode_headers_Inl by blast
next
  assume w: "\<exists>kv \<in> set hs. \<exists>n \<in> set (snd kv). 256 \<le> n"
  show "\<exists>e. encode_headers hs = Inl e"
  proof (cases "encode_headers hs")
    case (Inl e)
    then show ?thesis by blast
  next
    case (Inr raw)
    from encode_headers_Inr [OF Inr] w show ?thesis by force
  qed
qed

lemma encode_headers_str_lit:
  "encode_headers (map (\<lambda>k. (k, str_lit (f k))) ks) = Inr (map (\<lambda>k. (str_lower k, f k)) ks)"
  by (induction ks) (simp_all add: latin1_encode_str_lit)

lemma relay_eq:
  "relay resp =
     (case encode_headers (map (\<lambda>k. (k, httpx_getitem (r_headers resp) k))
                               (httpx_keys (r_headers resp))) of
        Inl e \<Rightarrow> Inl UnicodeEncodeError
      | Inr raw \<Rightarrow>
          Inr \<lparr>status_code = r_status_code resp,
               raw_headers = raw @ content_length_line (r_status_code resp) (r_content resp) raw,
               resp_body = r_content resp\<rparr>)"
proof (cases "encode_headers (map (\<lambda>k. (k, httpx_getitem (r_headers resp) k))
                               (httpx_keys (r_headers resp)))")
  case (Inl e)
  with encode_headers_Inl [OF Inl] show ?thesis
    by (simp add: relay_def init_headers_def httpx_dict_eq)
next
  case (Inr raw)
  then show ?thesis by (simp add: relay_def init_headers_def httpx_dict_eq)
qed

lemma relay_fails_iff:
  "(\<exists>e. relay resp = Inl e) \<longleftrightarrow>
   (\<exists>k \<in> set (httpx_keys (r_headers resp)). \<exists>n \<in> set (httpx_getitem (r_headers resp) k). 256 \<le> n)"
proof -
  let ?d = "map (\<lambda>k. (k, httpx_getitem (r_headers resp) k)) (httpx_keys (r_headers resp))"
  have "(\<exists>e. relay resp = Inl e) \<longleftrightarrow> (\<exists>e. encode_headers ?d = Inl e)"
    unfolding relay_eq by (cases "encode_headers ?d") simp_all
  also have "\<dots> \<longleftrightarrow> (\<exists>kv \<in> set ?d. \<exists>n \<in> set (snd kv). 256 \<le> n)"
    by (rule encode_headers_fails_iff)
  also have "\<dots> \<longleftrightarrow> (\<exists>k \<in> set (httpx_keys (r_headers resp)).
      \<exists>n \<in> set (httpx_getitem (r_headers resp) k). 256 \<le> n)"
    by auto
  finally show ?thesis .
qed

lemma relay_ascii:
  assumes "httpx_encoding (r_headers resp) = Ascii"
  shows "relay resp =
     (let merged = map (\<lambda>k. (k, join '', '' (map snd (filter (\<lambda>kv. str_lower (fst kv) = k)
                                                         (r_headers resp)))))
                       (httpx_keys (r_headers resp))
      in Inr \<lparr>status_code = r_status_code resp,
              raw_headers = merged @ content_length_line (r_status_code resp) (r_content resp) merged,
              resp_body = r_content resp\<rparr>)"
proof -
  let ?hs = "r_headers resp"
  let ?f = "\<lambda>k. join '', '' (map snd (filter (\<lambda>kv. str_lower (fst kv) = str_lower k) ?hs))"
  have "map (\<lambda>k. (k, httpx_getitem ?hs k)) (httpx_keys ?hs) = map (\<lambda>k. (k, str_lit (?f k))) (httpx_keys ?hs)"
    by (simp add: httpx_getitem_ascii [OF assms])
  then have "encode_headers (map (\<lambda>k. (k, httpx_getitem ?hs k)) (httpx_keys ?hs))
      = Inr (map (\<lambda>k. (str_lower k, ?f k)) (httpx_keys ?hs))"
    by (simp only: encode_headers_str_lit)
  moreover have "map (\<lambda>k. (str_lower k, ?f k)) (httpx_keys ?hs)
      = map (\<lambda>k. (k, join '', '' (map snd (filter (\<lambda>kv. str_lower (fst kv) = k) ?hs)))) (httpx_keys ?hs)"
    by (rule map_cong) (simp_all add: httpx_keys_lower)
  ultimately show ?thesis by (simp add: relay_eq Let_def)
qed

lemma relay_plain:
  assumes "httpx_encoding (r_headers resp) = Ascii"
    and "distinct (map fst (r_headers resp))"
    and "\<forall>k \<in> fst ` set (r_headers resp). str_lower k = k"
  shows "relay resp =
     Inr \<lparr>status_code = r_status_code resp,
          raw_headers = r_headers resp
            @ content_length_line (r_status_code resp) (r_content resp) (r_headers resp),
          resp_body = r_content resp\<rparr>"
proof -
  let ?hs = "r_headers resp"
  have one: "\<And>kv. kv \<in> set ?hs \<Longrightarrow>
      join '', '' (map snd (filter (\<lambda>kv'. str_lower (fst kv') = fst kv) ?hs)) = snd kv"
  proof -
    fix kv assume m: "kv \<in> set ?hs"
    have "filter (\<lambda>kv'. str_lower (fst kv') = fst kv) ?hs = filter (\<lambda>kv'. fst kv' = fst kv) ?hs"
      using assms(3) by (intro filter_cong) auto
    also have "\<dots> = [(fst kv, snd kv)]"
      using filter_name_distinct [OF assms(2), of "fst kv" "snd kv"] m by simp
    finally show "join '', '' (map snd (filter (\<lambda>kv'. str_lower (fst kv') = fst kv) ?hs)) = snd kv"
      by simp
  qed
  have "map (\<lambda>k. (k, join '', '' (map snd (filter (\<lambda>kv. str_lower (fst kv) = k) ?hs)))) (map fst ?hs) = ?hs"
    using one by (simp add: comp_def map_idI)
  then show ?thesis
    by (simp add: relay_ascii [OF assms(1)] httpx_keys_plain [OF assms(2,3)] Let_def)
qed

section \<open>The shape of a run of the handler\<close>

lemma proxy_calls:
  "rewrite_body lib a req = Inr b \<Longrightarrow>
   fst (proxy lib client a path req) =
     [\<lparr>c_method = method req, c_url = backend a @ str_lit ''/'' @ path,
       c_headers = forward_headers (headers req), c_content = b, c_timeout = timeout a\<rparr>]"
  by (simp add: proxy_def Let_def split: sum.splits)

lemma proxy_fails: "rewrite_body lib a req = Inl e \<Longrightarrow> proxy lib client a path req = ([], Inl e)"
  by (simp add: proxy_def)

lemma proxy_call_cases:
  "call \<in> set (fst (proxy lib client a path req)) \<Longrightarrow>
   \<exists>b. rewrite_body lib a req = Inr b \<and>
       call = \<lparr>c_method = method req, c_url = backend a @ str_lit ''/'' @ path,
               c_headers = forward_headers (headers req), c_content = b, c_timeout = timeout a\<rparr>"
  by (cases "rewrite_body lib a req") (auto simp: proxy_def Let_def split: sum.splits)

lemma proxy_response:
  "fst (proxy lib client a path req) = [call] \<Longrightarrow> client call = Inr resp \<Longrightarrow>
   snd (proxy lib client a path req) = relay resp"
  by (cases "rewrite_body lib a req") (auto simp: proxy_def Let_def split: sum.splits)

lemma rewrite_body_routed:
  "method req = ''POST'' \<Longrightarrow> body req \<noteq> [] \<Longrightarrow>
   headers_get (headers req) (routing_header a) = Some k \<Longrightarrow> k \<noteq> [] \<Longrightarrow>
   rewrite_body lib a req =
     (case rewrite_data lib (dp_size a) k (body req) of
        Inl e \<Rightarrow> Inl e
      | Inr data \<Rightarrow> (case json_dumps lib data of Inl e \<Rightarrow> Inl e | Inr s \<Rightarrow> str_encode s))"
  by (simp add: rewrite_body_def)

lemma rewrite_body_plain:
  "method req \<noteq> ''POST'' \<or> body req = [] \<or> headers_get (headers req) (routing_header a) = None
     \<or> headers_get (headers req) (routing_header a) = Some [] \<Longrightarrow>
   rewrite_body lib a req = Inr (body req)"
  by (auto simp: rewrite_body_def split: option.splits)

lemma rewrite_data_Inr:
  "rewrite_data lib n k b = Inr v \<Longrightarrow>
   \<exists>d r. json_loads lib b = Inr (JDict d) \<and> dp_rank k n = Inr r \<and>
         v = JDict (dict_set d (str_lit ''data_parallel_rank'') (JInt r))"
proof -
  assume a: "rewrite_data lib n k b = Inr v"
  then obtain data where l: "json_loads lib b = Inr data"
    by (cases "json_loads lib b") (simp_all add: rewrite_data_def)
  from a l obtain r where r: "dp_rank k n = Inr r"
    by (cases "dp_rank k n") (simp_all add: rewrite_data_def)
  from a l r have s: "setitem data (str_lit ''data_parallel_rank'') (JInt r) = Inr v"
    by (simp add: rewrite_data_def)
  then obtain d where "data = JDict d" by (cases data) simp_all
  with l r s show ?thesis by auto
qed

lemma rewrite_data_not_dict:
  "\<forall>d. json_loads lib b \<noteq> Inr (JDict d) \<Longrightarrow> \<exists>e. rewrite_data lib n k b = Inl e"
  using rewrite_data_Inr [of lib n k b] by (cases "rewrite_data lib n k b") auto

section \<open>Scenario A, step by step\<close>

lemma nat_digits_13: "nat_digits 13 = ''13''"
  by (simp add: nat_digits.simps char_of_eq_iff)

lemma loads_A:
  \<open>ascii_loads ''{"prompt":"hi"}'' = Inr (JDict [(str_lit ''prompt'', JStr (str_lit ''hi''))])\<close>
  by code_simp

lemma dumps_A:
  \<open>ascii_dumps (JDict [(str_lit ''prompt'', JStr (str_lit ''hi'')), (str_lit ''data_parallel_rank'', JInt 13)])
     = Inr (str_lit ''{"prompt": "hi", "data_parallel_rank": 13}'')\<close>
  by code_simp

lemma loads_A':
  \<open>ascii_loads ''{"prompt": "hi", "data_parallel_rank": 13}'' =
     Inr (JDict [(str_lit ''prompt'', JStr (str_lit ''hi'')), (str_lit ''data_parallel_rank'', JInt 13)])\<close>
  by code_simp

lemma encode_A:
  \<open>str_encode (str_lit ''{"prompt": "hi", "data_parallel_rank": 13}'') =
     Inr ''{"prompt": "hi", "data_parallel_rank": 13}''\<close>
  by (simp add: str_encode_latin1 utf8_latin1_def)

lemma get_A: "headers_get (headers scenario_A) (routing_header example_args) = Some ''abc''"
  by (simp add: headers_get_def scenario_A_def example_args_def str_lower_def lower_char_def char_of_eq_iff)

lemma rewrite_data_A:
  \<open>rewrite_data ascii_json 16 ''abc'' ''{"prompt":"hi"}'' =
     Inr (JDict [(str_lit ''prompt'', JStr (str_lit ''hi'')), (str_lit ''data_parallel_rank'', JInt 13)])\<close>
  by (simp add: rewrite_data_def ascii_json_def loads_A dp_rank_abc str_lit_def)

lemma rewrite_body_A:
  \<open>rewrite_body ascii_json example_args scenario_A = Inr ''{"prompt": "hi", "data_parallel_rank": 13}''\<close>
proof -
  have m: "method scenario_A = ''POST''" by (simp add: scenario_A_def)
  have b: "body scenario_A \<noteq> []" by (simp add: scenario_A_def)
  have k: "''abc'' \<noteq> []" by simp
  have "rewrite_data ascii_json (dp_size example_args) ''abc'' (body scenario_A) =
      Inr (JDict [(str_lit ''prompt'', JStr (str_lit ''hi'')),
                  (str_lit ''data_parallel_rank'', JInt 13)])"
    using rewrite_data_A by (simp add: example_args_def scenario_A_def)
  then show ?thesis
    by (simp add: rewrite_body_routed [OF m b get_A k] ascii_json_def dumps_A encode_A)
qed

section \<open>The other scenarios, step by step\<close>

lemmas eval_headers =
  headers_get_def forward_headers_def headers_items_def keep_def forwarded_def
  str_lower_def lower_char_def char_of_eq_iff

lemmas eval_httpx =
  httpx_keys_def httpx_encoding_def is_ascii_def add_key_def content_length_line_def
  str_lower_def lower_char_def char_of_eq_iff

lemma loads_n1:
  \<open>ascii_loads ''{"n": 1}'' = Inr (JDict [(str_lit ''n'', JInt 1)])\<close>
  by code_simp

lemma rewrite_data_n1:
  \<open>rewrite_data ascii_json 16 ''abc'' ''{"n": 1}'' =
     Inr (JDict [(str_lit ''n'', JInt 1), (str_lit ''data_parallel_rank'', JInt 13)])\<close>
  by (simp add: rewrite_data_def ascii_json_def loads_n1 dp_rank_abc str_lit_def)

lemma loads_D: "ascii_loads ''[1, 2]'' = Inr (JList [JInt 1, JInt 2])"
  by code_simp

lemma get_D: "headers_get (headers scenario_D) (routing_header example_args) = Some ''abc''"
  by (simp add: scenario_D_def example_args_def eval_headers)

lemma loads_overwrite:
  \<open>ascii_loads ''{"data_parallel_rank": 3, "prompt": "hi"}'' =
     Inr (JDict [(str_lit ''data_parallel_rank'', JInt 3), (str_lit ''prompt'', JStr (str_lit ''hi''))])\<close>
  by code_simp

lemma dumps_overwrite:
  \<open>ascii_dumps (JDict [(str_lit ''data_parallel_rank'', JInt 13), (str_lit ''prompt'', JStr (str_lit ''hi''))])
     = Inr (str_lit ''{"data_parallel_rank": 13, "prompt": "hi"}'')\<close>
  by code_simp

lemma encode_overwrite:
  \<open>str_encode (str_lit ''{"data_parallel_rank": 13, "prompt": "hi"}'') =
     Inr ''{"data_parallel_rank": 13, "prompt": "hi"}''\<close>
  by (simp add: str_encode_latin1 utf8_latin1_def)

lemma get_overwrite:
  "headers_get (headers overwrite_request) (routing_header example_args) = Some ''abc''"
  by (simp add: overwrite_request_def example_args_def eval_headers)

lemma rewrite_body_overwrite:
  \<open>rewrite_body ascii_json example_args overwrite_request =
     Inr ''{"data_parallel_rank": 13, "prompt": "hi"}''\<close>
proof -
  have m: "method overwrite_request = ''POST''" by (simp add: overwrite_request_def)
  have b: "body overwrite_request \<noteq> []" by (simp add: overwrite_request_def)
  have k: "''abc'' \<noteq> []" by simp
  have "rewrite_data ascii_json (dp_size example_args) ''abc'' (body overwrite_request) =
      Inr (JDict [(str_lit ''data_parallel_rank'', JInt 13), (str_lit ''prompt'', JStr (str_lit ''hi''))])"
    by (simp add: rewrite_data_def ascii_json_def overwrite_request_def example_args_def
        loads_overwrite dp_rank_abc)
  then show ?thesis
    by (simp add: rewrite_body_routed [OF m b get_overwrite k] ascii_json_def dumps_overwrite
        encode_overwrite)
qed

lemma rewrite_body_query:
  "rewrite_body lib a (req\<lparr>query_string := q\<rparr>) = rewrite_body lib a req"
  by (simp add: rewrite_body_def cong: option.case_cong sum.case_cong if_cong)

lemma proxy_query:
  "proxy lib client a path (req\<lparr>query_string := q\<rparr>) = proxy lib client a path req"
  by (simp add: proxy_def rewrite_body_query Let_def cong: sum.case_cong)

text \<open>
  A key outside ASCII: a header value of the single byte E9 is the \<^verbatim>\<open>str\<close> of the code
  point U+00E9, whose encoding is the two bytes C3 A9. The rank is the digest of those
  two bytes, 12 for 16 partitions; the digest of the byte E9 would give 13.
\<close>

lemma latin1_key_bytes: "utf8_latin1 [CHR 0xE9] = [CHR 0xC3, CHR 0xA9]"
  by code_simp

lemma latin1_key_rank: "dp_rank [CHR 0xE9] 16 = Inr 12"
  by code_simp

lemma latin1_key_raw_digest: "be_int (sha256 [CHR 0xE9]) mod 16 = 13"
  by code_simp

lemma utf8_latin1_ascii: "\<forall>c \<in> set s. (of_char c :: nat) < 128 \<Longrightarrow> utf8_latin1 s = s"
  by (induction s) (simp_all add: utf8_latin1_def)

section \<open>The answers of the scenarios, relayed\<close>

text \<open>
  What the handler returns for the answers above. A request without a body, scenario C,
  gives one upstream call whatever the path; the answer to it goes through \<open>relay\<close>.
\<close>

lemma nat_digits_2: "nat_digits 2 = ''2''"
  by (simp add: nat_digits.simps char_of_eq_iff)

lemma nat_digits_Suc_Suc_0: "nat_digits (Suc (Suc 0)) = ''2''"
  using nat_digits_2 by (simp add: numeral_2_eq_2)

lemma plain_call_C:
  "fst (proxy lib client example_args path scenario_C) =
     [\<lparr>c_method = ''GET'', c_url = str_lit ''http://127.0.0.1:8000/'' @ path,
       c_headers = [(''x-smg-routing-key'', ''abc'')], c_content = [], c_timeout = 600\<rparr>]"
proof -
  have r: "rewrite_body lib example_args scenario_C = Inr []"
    by (simp add: rewrite_body_def scenario_C_def)
  have f: "forward_headers (headers scenario_C) = [(''x-smg-routing-key'', ''abc'')]"
    by (simp add: scenario_C_def eval_headers)
  show ?thesis
    by (simp add: proxy_calls [OF r] f) (simp add: scenario_C_def example_args_def str_lit_def)
qed

lemma relay_two_cookies:
  "relay two_cookies =
     Inr \<lparr>status_code = 200,
          raw_headers = [(''set-cookie'', ''a=1, b=2''), (''content-length'', ''2'')],
          resp_body = ''ok''\<rparr>"
proof -
  have a: "httpx_encoding (r_headers two_cookies) = Ascii"
    by (simp add: two_cookies_def httpx_encoding_def is_ascii_def)
  have k: "httpx_keys (r_headers two_cookies) = [''set-cookie'']"
    by (simp add: two_cookies_def eval_httpx)
  show ?thesis
    unfolding relay_ascii [OF a] k
    by (simp add: two_cookies_def Let_def content_length_line_def nat_digits_Suc_Suc_0 str_lower_def
        lower_char_def)
qed

lemma relay_mixed_case:
  "relay mixed_case_answer =
     Inr \<lparr>status_code = 200,
          raw_headers = [(''content-type'', ''text/plain''), (''vary'', ''accept, origin''),
                         (''content-length'', ''2'')],
          resp_body = ''ok''\<rparr>"
proof -
  have a: "httpx_encoding (r_headers mixed_case_answer) = Ascii"
    by (simp add: mixed_case_answer_def httpx_encoding_def is_ascii_def)
  have k: "httpx_keys (r_headers mixed_case_answer) = [''content-type'', ''vary'']"
    by (simp add: mixed_case_answer_def eval_httpx)
  show ?thesis
    unfolding relay_ascii [OF a] k
    by (simp add: mixed_case_answer_def Let_def content_length_line_def nat_digits_Suc_Suc_0 str_lower_def
        lower_char_def char_of_eq_iff)
qed

lemma relay_utf8_value:
  "relay utf8_value_answer =
     Inr \<lparr>status_code = 200,
          raw_headers = [(''x-name'', [CHR 0xE9]), (''content-length'', ''2'')],
          resp_body = ''ok''\<rparr>"
  by code_simp

lemma relay_wide_value: "relay wide_value_answer = Inl UnicodeEncodeError"
  by code_simp

lemma relay_gzip:
  "relay gzip_answer =
     Inr \<lparr>status_code = 200,
          raw_headers = [(''content-encoding'', ''gzip''), (''content-length'', ''22'')],
          resp_body = ''ok''\<rparr>"
  by code_simp

section \<open>What a request adds to the log\<close>

text \<open>
  A request with a routing key adds at most one line to the log of the process that serves
  it, and the line holds the key and its rank. Nothing else of the process changes.
\<close>

lemma logged_cases:
  assumes "headers_get (headers req) (routing_header a) = Some routing_key"
    and "dp_rank routing_key (dp_size a) = Inr R"
  shows "logged lib a req = [] \<or> logged lib a req = [(routing_key, R)]"
  using assms by (auto simp: logged_def split: sum.splits)

lemma serve_log:
  "fst (serve lib client p path req) = p\<lparr>log_lines := log_lines p @ logged lib (options p) req\<rparr>"
  by (simp add: serve_def)

lemma logged_A: "logged ascii_json example_args scenario_A = [(''abc'', 13)]"
  using get_A rewrite_body_A dp_rank_abc
  by (simp add: logged_def) (simp add: scenario_A_def example_args_def)

lemma logged_overwrite:
  "logged ascii_json (options process_2) overwrite_request = [(''abc'', 13)]"
proof -
  have g: "headers_get (headers overwrite_request) (routing_header (options process_2)) = Some ''abc''"
    using get_overwrite by (simp add: process_2_def example_args_def)
  have m: "method overwrite_request = ''POST''" by (simp add: overwrite_request_def)
  have b: "body overwrite_request \<noteq> []" by (simp add: overwrite_request_def)
  have k: "''abc'' \<noteq> []" by simp
  have n: "dp_size (options process_2) = 16" by (simp add: process_2_def example_args_def)
  have "rewrite_body ascii_json (options process_2) overwrite_request =
      rewrite_body ascii_json example_args overwrite_request"
    using get_overwrite g
    by (simp add: rewrite_body_routed [OF m b g k] rewrite_body_routed [OF m b get_overwrite k] n)
      (simp add: example_args_def)
  then show ?thesis
    using g rewrite_body_overwrite dp_rank_abc by (simp add: logged_def m b n)
qed

lemma logged_overwrite_1: "logged ascii_json example_args overwrite_request = [(''abc'', 13)]"
proof -
  have m: "method overwrite_request = ''POST''" by (simp add: overwrite_request_def)
  have b: "body overwrite_request \<noteq> []" by (simp add: overwrite_request_def)
  show ?thesis
    using get_overwrite rewrite_body_overwrite dp_rank_abc
    by (simp add: logged_def m b) (simp add: example_args_def)
qed

lemma get_latin1_key:
  "headers_get (headers latin1_key_request) (routing_header example_args) = Some [CHR 0xE9]"
  by (simp add: latin1_key_request_def example_args_def eval_headers)

section \<open>The claims\<close>

text \<open>
  C1, as stated, fails. The rank is not always the digest of the bytes of the header
  value: \<^verbatim>\<open>routing_key\<close> is a \<^verbatim>\<open>str\<close>, the header value read as Latin-1, and what is hashed
  is \<^verbatim>\<open>routing_key.encode()\<close>, its UTF-8 encoding. A \<^verbatim>\<open>POST\<close> whose routing header holds the
  single byte E9 gets, for 16 partitions, the rank 12, the digest of the two bytes C3 A9
  modulo 16; the digest of the byte E9 modulo 16 is 13.
\<close>

theorem rank_of_latin1_key_is_not_digest_of_header_bytes:
  "method latin1_key_request = ''POST'' \<and> body latin1_key_request \<noteq> []
   \<and> headers_get (headers latin1_key_request) (routing_header example_args) = Some [CHR 0xE9]
   \<and> dp_rank [CHR 0xE9] (dp_size example_args) = Inr 12
   \<and> be_int (sha256 [CHR 0xE9]) mod dp_size example_args = 13"
  using get_latin1_key latin1_key_rank latin1_key_raw_digest
  by (simp add: latin1_key_request_def example_args_def)

text \<open>
  C1, amended. For every non-empty routing key and every partition count above zero, the
  rank the handler computes is the SHA-256 digest of the UTF-8 encoding of the key (the
  header value read as Latin-1), read as one big-endian unsigned integer, modulo the
  partition count, and that is the rank the handler stores in the decoded body. The
  encoding, \<open>utf8_latin1\<close>, is the header value's own bytes when the key is ASCII. For the
  key \<^verbatim>\<open>abc\<close> and 16 partitions the rank is the digest of \<^verbatim>\<open>abc\<close> modulo 16, which is 13,
  and the body \<^verbatim>\<open>{"prompt":"hi"}\<close> is rewritten to the object with the fields \<^verbatim>\<open>prompt\<close>,
  still \<^verbatim>\<open>"hi"\<close>, and \<^verbatim>\<open>data_parallel_rank\<close>, 13.
\<close>

theorem rank_is_sha256_mod_partitions:
  assumes "0 < dp_size a"
    and "method req = ''POST''" and "body req \<noteq> []"
    and "headers_get (headers req) (routing_header a) = Some routing_key"
    and "routing_key \<noteq> []"
  shows \<open>dp_rank routing_key (dp_size a) =
           Inr (be_int (sha256 (utf8_latin1 routing_key)) mod dp_size a)
       \<and> ((\<forall>c \<in> set routing_key. (of_char c :: nat) < 128) \<longrightarrow>
            utf8_latin1 routing_key = routing_key)
       \<and> rewrite_body lib a req =
           (case json_loads lib (body req) of
              Inl e \<Rightarrow> Inl e
            | Inr data \<Rightarrow>
                (case setitem data (str_lit ''data_parallel_rank'')
                        (JInt (be_int (sha256 (utf8_latin1 routing_key)) mod dp_size a)) of
                   Inl e \<Rightarrow> Inl e
                 | Inr data' \<Rightarrow>
                     (case json_dumps lib data' of Inl e \<Rightarrow> Inl e | Inr s \<Rightarrow> str_encode s)))
       \<and> be_int (sha256 ''abc'') mod 16 = 13
       \<and> rewrite_data ascii_json 16 ''abc'' ''{"prompt":"hi"}'' =
           Inr (JDict [(str_lit ''prompt'', JStr (str_lit ''hi'')),
                       (str_lit ''data_parallel_rank'', JInt 13)])
       \<and> rewrite_body ascii_json example_args scenario_A =
           Inr ''{"prompt": "hi", "data_parallel_rank": 13}''\<close>
proof -
  have n: "dp_size a \<noteq> 0" using assms(1) by simp
  have rank: "dp_rank routing_key (dp_size a) =
      Inr (be_int (sha256 (utf8_latin1 routing_key)) mod dp_size a)"
    by (rule dp_rank_eq [OF n])
  have "rewrite_body lib a req =
      (case rewrite_data lib (dp_size a) routing_key (body req) of
         Inl e \<Rightarrow> Inl e
       | Inr data \<Rightarrow> (case json_dumps lib data of Inl e \<Rightarrow> Inl e | Inr s \<Rightarrow> str_encode s))"
    by (rule rewrite_body_routed [OF assms(2-5)])
  then have body: "rewrite_body lib a req =
      (case json_loads lib (body req) of
         Inl e \<Rightarrow> Inl e
       | Inr data \<Rightarrow>
           (case setitem data (str_lit ''data_parallel_rank'')
                   (JInt (be_int (sha256 (utf8_latin1 routing_key)) mod dp_size a)) of
              Inl e \<Rightarrow> Inl e
            | Inr data' \<Rightarrow>
                (case json_dumps lib data' of Inl e \<Rightarrow> Inl e | Inr s \<Rightarrow> str_encode s)))"
    by (simp add: rewrite_data_def rank split: sum.splits)
  have ascii: "(\<forall>c \<in> set routing_key. (of_char c :: nat) < 128) \<longrightarrow>
      utf8_latin1 routing_key = routing_key"
    by (simp add: utf8_latin1_ascii)
  show ?thesis
    using rank ascii body be_int_sha256_abc rewrite_data_A rewrite_body_A by blast
qed

theorem rank_is_sha256_mod_partitions_witness:
  "0 < dp_size example_args \<and> method scenario_A = ''POST'' \<and> body scenario_A \<noteq> []
   \<and> headers_get (headers scenario_A) (routing_header example_args) = Some ''abc''
   \<and> ''abc'' \<noteq> []
   \<and> dp_rank ''abc'' (dp_size example_args) = Inr 13"
proof -
  have h1: "0 < dp_size example_args" by (simp add: example_args_def)
  have h2: "method scenario_A = ''POST''" by (simp add: scenario_A_def)
  have h3: "body scenario_A \<noteq> []" by (simp add: scenario_A_def)
  have h5: "''abc'' \<noteq> []" by simp
  have n: "dp_size example_args = 16" by (simp add: example_args_def)
  from rank_is_sha256_mod_partitions [OF h1 h2 h3 get_A h5, of ascii_json]
  have "dp_rank ''abc'' (dp_size example_args) = Inr 13"
    by (simp add: utf8_latin1_abc n)
  with h1 h2 h3 get_A show ?thesis by simp
qed

text \<open>
  C2. For every routing key and every partition count \<open>N\<close> above zero the rank is computed
  and lies in the range from 0 up to, not including, \<open>N\<close>.
\<close>

theorem rank_in_range:
  assumes "0 < N"
  shows "\<exists>r. dp_rank routing_key N = Inr r \<and> 0 \<le> r \<and> r < N"
proof -
  have "dp_rank routing_key N = Inr (be_int (sha256 (utf8_latin1 routing_key)) mod N)"
    using assms by (simp add: dp_rank_eq)
  moreover have "0 \<le> be_int (sha256 (utf8_latin1 routing_key)) mod N"
    using assms by simp
  moreover have "be_int (sha256 (utf8_latin1 routing_key)) mod N < N"
    using assms by simp
  ultimately show ?thesis by blast
qed

theorem rank_in_range_witness:
  "(0 :: int) < 16 \<and> dp_rank ''abc'' 16 = Inr 13 \<and> (0 :: int) \<le> 13 \<and> (13 :: int) < 16"
  using rank_in_range [of 16 "''abc''"] dp_rank_abc by simp

text \<open>
  C3. The rank is a function of the routing key and the partition count, and of nothing
  else. Take two requests served by two processes, \<open>p1\<close> and \<open>p2\<close>, that agree on the
  partition count \<open>N\<close>, above zero, and on the routing key, and on nothing more: the hash
  seeds, the other options, the logs written so far, the JSON libraries, the upstream
  servers, the paths, and the methods, other headers and bodies of the requests are
  arbitrary (\<open>p2\<close> may be \<open>p1\<close>, or \<open>p1\<close> after it has served other requests). Then there is
  one integer \<open>R\<close>, the SHA-256 digest of the key's encoding modulo \<open>N\<close>, such that the rank
  computation returns \<open>R\<close> (it never fails); each process is left as it was but for its
  log, to which the request adds nothing or the one line of the key and \<open>R\<close>; and whenever
  the body of either request is rewritten, the field \<^verbatim>\<open>data_parallel_rank\<close> of the object
  sent is \<open>R\<close>.
\<close>

theorem rank_deterministic:
  assumes "0 < N"
    and "dp_size (options p1) = N" and "dp_size (options p2) = N"
    and "headers_get (headers req1) (routing_header (options p1)) = Some routing_key"
    and "headers_get (headers req2) (routing_header (options p2)) = Some routing_key"
  shows "\<exists>R. R = be_int (sha256 (utf8_latin1 routing_key)) mod N
           \<and> dp_rank routing_key N = Inr R
           \<and> (\<exists>new1. fst (serve lib1 client1 p1 path1 req1) = p1\<lparr>log_lines := log_lines p1 @ new1\<rparr>
                  \<and> (new1 = [] \<or> new1 = [(routing_key, R)]))
           \<and> (\<exists>new2. fst (serve lib2 client2 p2 path2 req2) = p2\<lparr>log_lines := log_lines p2 @ new2\<rparr>
                  \<and> (new2 = [] \<or> new2 = [(routing_key, R)]))
           \<and> (\<forall>v. rewrite_data lib1 N routing_key (body req1) = Inr v \<longrightarrow>
                  (\<exists>d. v = JDict d \<and> map_of d (str_lit ''data_parallel_rank'') = Some (JInt R)))
           \<and> (\<forall>v. rewrite_data lib2 N routing_key (body req2) = Inr v \<longrightarrow>
                  (\<exists>d. v = JDict d \<and> map_of d (str_lit ''data_parallel_rank'') = Some (JInt R)))"
proof -
  let ?R = "be_int (sha256 (utf8_latin1 routing_key)) mod N"
  have n: "N \<noteq> 0" using assms(1) by simp
  have r: "dp_rank routing_key N = Inr ?R" by (rule dp_rank_eq [OF n])
  have l1: "logged lib1 (options p1) req1 = [] \<or> logged lib1 (options p1) req1 = [(routing_key, ?R)]"
    using logged_cases [OF assms(4)] r assms(2) by simp
  have l2: "logged lib2 (options p2) req2 = [] \<or> logged lib2 (options p2) req2 = [(routing_key, ?R)]"
    using logged_cases [OF assms(5)] r assms(3) by simp
  have d: "\<And>lib b v. rewrite_data lib N routing_key b = Inr v \<Longrightarrow>
      \<exists>d. v = JDict d \<and> map_of d (str_lit ''data_parallel_rank'') = Some (JInt ?R)"
  proof -
    fix lib b v assume "rewrite_data lib N routing_key b = Inr v"
    from rewrite_data_Inr [OF this] r show
      "\<exists>d. v = JDict d \<and> map_of d (str_lit ''data_parallel_rank'') = Some (JInt ?R)"
      by (auto simp: map_of_dict_set)
  qed
  from r l1 l2 d serve_log [of lib1 client1 p1 path1 req1] serve_log [of lib2 client2 p2 path2 req2]
  show ?thesis by blast
qed

theorem rank_deterministic_witness:
  "(0 :: int) < 16 \<and> dp_size (options process_1) = 16 \<and> dp_size (options process_2) = 16
   \<and> hash_seed process_1 \<noteq> hash_seed process_2
   \<and> headers_get (headers scenario_A) (routing_header (options process_1)) = Some ''abc''
   \<and> headers_get (headers overwrite_request) (routing_header (options process_2)) = Some ''abc''
   \<and> dp_rank ''abc'' 16 = Inr 13
   \<and> fst (serve ascii_json echo_client process_1 (str_lit ''generate'') scenario_A)
       = process_1\<lparr>log_lines := [(''abc'', 13)]\<rparr>
   \<and> fst (serve ascii_json cookie_client process_2 (str_lit ''v1/chat'') overwrite_request)
       = process_2\<lparr>log_lines := [(''xyz'', 4), (''abc'', 13)]\<rparr>
   \<and> fst (serve ascii_json cookie_client
             (fst (serve ascii_json echo_client process_1 (str_lit ''generate'') scenario_A))
             (str_lit ''v1/chat'') overwrite_request)
       = process_1\<lparr>log_lines := [(''abc'', 13), (''abc'', 13)]\<rparr>"
proof -
  have h1: "(0 :: int) < 16" by simp
  have h2: "dp_size (options process_1) = 16" by (simp add: process_1_def example_args_def)
  have h3: "dp_size (options process_2) = 16" by (simp add: process_2_def example_args_def)
  have h4: "headers_get (headers scenario_A) (routing_header (options process_1)) = Some ''abc''"
    using get_A by (simp add: process_1_def)
  have h5: "headers_get (headers overwrite_request) (routing_header (options process_2)) = Some ''abc''"
    using get_overwrite by (simp add: process_2_def example_args_def)
  note w = rank_deterministic [OF h1 h2 h3 h4 h5, of ascii_json echo_client "str_lit ''generate''"
      ascii_json cookie_client "str_lit ''v1/chat''"]
  have s: "hash_seed process_1 \<noteq> hash_seed process_2"
    by (simp add: process_1_def process_2_def)
  have l1: "fst (serve ascii_json echo_client process_1 (str_lit ''generate'') scenario_A)
       = process_1\<lparr>log_lines := [(''abc'', 13)]\<rparr>"
    using logged_A by (simp add: serve_def process_1_def)
  have l2: "fst (serve ascii_json cookie_client process_2 (str_lit ''v1/chat'') overwrite_request)
       = process_2\<lparr>log_lines := [(''xyz'', 4), (''abc'', 13)]\<rparr>"
    using logged_overwrite by (simp add: serve_def) (simp add: process_2_def)
  have l3: "fst (serve ascii_json cookie_client
             (fst (serve ascii_json echo_client process_1 (str_lit ''generate'') scenario_A))
             (str_lit ''v1/chat'') overwrite_request)
       = process_1\<lparr>log_lines := [(''abc'', 13), (''abc'', 13)]\<rparr>"
    unfolding l1 using logged_overwrite_1 by (simp add: serve_def process_1_def)
  from w h1 h2 h3 h4 h5 s l1 l2 l3 dp_rank_abc show ?thesis by simp
qed

text \<open>
  C4. When the configured routing header is absent from the request, or its value is the
  empty string, the body sent upstream is the body received, byte for byte: nothing is
  decoded and no field is injected.
\<close>

theorem passthrough_without_routing_key:
  assumes "headers_get (headers req) (routing_header a) = None
         \<or> headers_get (headers req) (routing_header a) = Some []"
  shows "rewrite_body lib a req = Inr (body req)
       \<and> map c_content (fst (proxy lib client a path req)) = [body req]"
proof -
  have "rewrite_body lib a req = Inr (body req)"
    using assms by (intro rewrite_body_plain) blast
  then show ?thesis by (simp add: proxy_calls)
qed

theorem passthrough_without_routing_key_witness:
  \<open>headers_get (headers scenario_E) (routing_header example_args) = None
   \<and> map c_content (fst (proxy ascii_json echo_client example_args (str_lit ''generate'') scenario_E))
       = [''{"prompt":"hi"}'']\<close>
proof -
  have h: "headers_get (headers scenario_E) (routing_header example_args) = None"
    by (simp add: scenario_E_def example_args_def eval_headers)
  have "body scenario_E = ''{\"prompt\":\"hi\"}''"
    by (simp add: scenario_E_def)
  with passthrough_without_routing_key [where req = scenario_E and a = example_args and lib = ascii_json
      and client = echo_client and path = "str_lit ''generate''", OF disjI1 [OF h]] h
  show ?thesis by simp
qed

text \<open>
  C5. The body is rewritten only when the method is \<^verbatim>\<open>POST\<close> and the body is not empty:
  with any other method, or with an empty body, the body sent upstream is the body
  received, also when the routing header is present.
\<close>

theorem no_rewrite_unless_post_with_body:
  assumes "method req \<noteq> ''POST'' \<or> body req = []"
  shows "rewrite_body lib a req = Inr (body req)
       \<and> map c_content (fst (proxy lib client a path req)) = [body req]"
proof -
  have "rewrite_body lib a req = Inr (body req)"
    using assms by (intro rewrite_body_plain) blast
  then show ?thesis by (simp add: proxy_calls)
qed

theorem no_rewrite_unless_post_with_body_witness:
  "method scenario_C \<noteq> ''POST''
   \<and> headers_get (headers scenario_C) (routing_header example_args) = Some ''abc''
   \<and> map c_content (fst (proxy ascii_json echo_client example_args (str_lit ''v1/models'') scenario_C))
       = [[]]"
proof -
  have m: "method scenario_C \<noteq> ''POST''" by (simp add: scenario_C_def)
  have h: "headers_get (headers scenario_C) (routing_header example_args) = Some ''abc''"
    by (simp add: scenario_C_def example_args_def eval_headers)
  have "body scenario_C = []" by (simp add: scenario_C_def)
  with no_rewrite_unless_post_with_body [where req = scenario_C and a = example_args and lib = ascii_json
      and client = echo_client and path = "str_lit ''v1/models''", OF disjI1 [OF m]] m h
  show ?thesis by simp
qed

text \<open>
  C6. A \<^verbatim>\<open>POST\<close> with a routing key and a non-empty body that does not decode to a JSON
  object (\<^verbatim>\<open>json.loads\<close> raises, or returns a list or a scalar) makes the handler fail
  with an exception, and no upstream call has been made.
\<close>

theorem undecodable_body_fails_before_upstream:
  assumes "method req = ''POST''" and "body req \<noteq> []"
    and "headers_get (headers req) (routing_header a) = Some routing_key"
    and "routing_key \<noteq> []"
    and "\<forall>d. json_loads lib (body req) \<noteq> Inr (JDict d)"
  shows "\<exists>e. proxy lib client a path req = ([], Inl e)"
proof -
  from rewrite_data_not_dict [OF assms(5)] obtain e where
    "rewrite_data lib (dp_size a) routing_key (body req) = Inl e" by blast
  then have "rewrite_body lib a req = Inl e"
    by (simp add: rewrite_body_routed [OF assms(1-4)])
  then show ?thesis by (simp add: proxy_fails)
qed

theorem undecodable_body_fails_before_upstream_witness:
  "method scenario_D = ''POST'' \<and> body scenario_D = ''[1, 2]''
   \<and> headers_get (headers scenario_D) (routing_header example_args) = Some ''abc''
   \<and> json_loads ascii_json (body scenario_D) = Inr (JList [JInt 1, JInt 2])
   \<and> proxy ascii_json echo_client example_args (str_lit ''generate'') scenario_D
       = ([], Inl TypeError)"
proof -
  have m: "method scenario_D = ''POST''" by (simp add: scenario_D_def)
  have b: "body scenario_D = ''[1, 2]''" by (simp add: scenario_D_def)
  have b': "body scenario_D \<noteq> []" by (simp add: scenario_D_def)
  have k: "''abc'' \<noteq> []" by simp
  have l: "json_loads ascii_json (body scenario_D) = Inr (JList [JInt 1, JInt 2])"
    by (simp add: b ascii_json_def loads_D)
  then have nd: "\<forall>d. json_loads ascii_json (body scenario_D) \<noteq> Inr (JDict d)" by simp
  from undecodable_body_fails_before_upstream [where client = echo_client and path = "str_lit ''generate''",
      OF m b' get_D k nd]
  obtain e where p: "proxy ascii_json echo_client example_args (str_lit ''generate'') scenario_D = ([], Inl e)"
    by blast
  have "rewrite_data ascii_json (dp_size example_args) ''abc'' (body scenario_D) = Inl TypeError"
    using l by (simp add: rewrite_data_def example_args_def dp_rank_abc)
  then have "rewrite_body ascii_json example_args scenario_D = Inl TypeError"
    by (simp add: rewrite_body_routed [OF m b' get_D k])
  then have "proxy ascii_json echo_client example_args (str_lit ''generate'') scenario_D = ([], Inl TypeError)"
    by (simp add: proxy_fails)
  with m b get_D l p show ?thesis by simp
qed

text \<open>
  C7. When the rewriting succeeds, the body was decoded to an object; the object that is
  encoded and sent has \<^verbatim>\<open>data_parallel_rank\<close> set to the computed rank (replacing a field
  of that name if there was one), and every other field of the decoded object is in it
  with its value, in the same order.
\<close>

theorem rewrite_keeps_other_fields:
  assumes "method req = ''POST''" and "body req \<noteq> []"
    and "headers_get (headers req) (routing_header a) = Some routing_key"
    and "routing_key \<noteq> []"
    and "rewrite_body lib a req = Inr b'"
  shows "\<exists>d r s.
           json_loads lib (body req) = Inr (JDict d)
         \<and> dp_rank routing_key (dp_size a) = Inr r
         \<and> json_dumps lib (JDict (dict_set d (str_lit ''data_parallel_rank'') (JInt r))) = Inr s
         \<and> str_encode s = Inr b'
         \<and> map_of (dict_set d (str_lit ''data_parallel_rank'') (JInt r))
              (str_lit ''data_parallel_rank'') = Some (JInt r)
         \<and> (\<forall>f. f \<noteq> str_lit ''data_parallel_rank'' \<longrightarrow>
                map_of (dict_set d (str_lit ''data_parallel_rank'') (JInt r)) f = map_of d f)
         \<and> filter (\<lambda>(f, x). f \<noteq> str_lit ''data_parallel_rank'')
                (dict_set d (str_lit ''data_parallel_rank'') (JInt r))
             = filter (\<lambda>(f, x). f \<noteq> str_lit ''data_parallel_rank'') d"
proof -
  let ?k = "str_lit ''data_parallel_rank''"
  have eq: "rewrite_body lib a req =
      (case rewrite_data lib (dp_size a) routing_key (body req) of
         Inl e \<Rightarrow> Inl e
       | Inr data \<Rightarrow> (case json_dumps lib data of Inl e \<Rightarrow> Inl e | Inr s \<Rightarrow> str_encode s))"
    by (rule rewrite_body_routed [OF assms(1-4)])
  from assms(5) eq obtain v where v: "rewrite_data lib (dp_size a) routing_key (body req) = Inr v"
    by (cases "rewrite_data lib (dp_size a) routing_key (body req)") simp_all
  from assms(5) eq v obtain s where s: "json_dumps lib v = Inr s" "str_encode s = Inr b'"
    by (cases "json_dumps lib v") simp_all
  from rewrite_data_Inr [OF v] obtain d r where
    d: "json_loads lib (body req) = Inr (JDict d)" "dp_rank routing_key (dp_size a) = Inr r"
       "v = JDict (dict_set d ?k (JInt r))"
    by blast
  have "map_of (dict_set d ?k (JInt r)) ?k = Some (JInt r)"
    by (simp add: map_of_dict_set)
  moreover have "\<forall>f. f \<noteq> ?k \<longrightarrow> map_of (dict_set d ?k (JInt r)) f = map_of d f"
    by (simp add: map_of_dict_set)
  moreover have "filter (\<lambda>(f, x). f \<noteq> ?k) (dict_set d ?k (JInt r)) = filter (\<lambda>(f, x). f \<noteq> ?k) d"
    by (rule filter_dict_set)
  ultimately show ?thesis using d s by blast
qed

theorem rewrite_keeps_other_fields_witness:
  \<open>method overwrite_request = ''POST''
   \<and> body overwrite_request = ''{"data_parallel_rank": 3, "prompt": "hi"}''
   \<and> headers_get (headers overwrite_request) (routing_header example_args) = Some ''abc''
   \<and> rewrite_body ascii_json example_args overwrite_request =
       Inr ''{"data_parallel_rank": 13, "prompt": "hi"}''
   \<and> json_loads ascii_json (body overwrite_request) =
       Inr (JDict [(str_lit ''data_parallel_rank'', JInt 3), (str_lit ''prompt'', JStr (str_lit ''hi''))])
   \<and> dict_set [(str_lit ''data_parallel_rank'', JInt 3), (str_lit ''prompt'', JStr (str_lit ''hi''))]
        (str_lit ''data_parallel_rank'') (JInt 13) =
       [(str_lit ''data_parallel_rank'', JInt 13), (str_lit ''prompt'', JStr (str_lit ''hi''))]\<close>
proof -
  have m: "method overwrite_request = ''POST''" by (simp add: overwrite_request_def)
  have b: "body overwrite_request \<noteq> []" by (simp add: overwrite_request_def)
  have k: "''abc'' \<noteq> []" by simp
  note w = rewrite_keeps_other_fields [OF m b get_overwrite k rewrite_body_overwrite]
  have l: "json_loads ascii_json (body overwrite_request) =
      Inr (JDict [(str_lit ''data_parallel_rank'', JInt 3), (str_lit ''prompt'', JStr (str_lit ''hi''))])"
    by (simp add: ascii_json_def overwrite_request_def loads_overwrite)
  have "body overwrite_request = ''{\"data_parallel_rank\": 3, \"prompt\": \"hi\"}''"
    by (simp add: overwrite_request_def)
  with w m get_overwrite rewrite_body_overwrite l show ?thesis by simp
qed

text \<open>
  C8, as stated, fails. The outbound headers are a dictionary built from the request's
  header lines, so of two lines with one name only the last survives: here the line
  \<^verbatim>\<open>accept: text/plain\<close> of the request is neither \<^verbatim>\<open>Host\<close> nor \<^verbatim>\<open>Content-Length\<close>, and it
  is not among the headers sent upstream.
\<close>

theorem repeated_request_header_dropped:
  "(''accept'', ''text/plain'') \<in> set (headers two_accepts)
   \<and> str_lower ''accept'' \<noteq> ''host'' \<and> str_lower ''accept'' \<noteq> ''content-length''
   \<and> map c_headers (fst (proxy ascii_json echo_client example_args (str_lit ''v1/models'') two_accepts))
       = [[(''accept'', ''application/json'')]]
   \<and> (''accept'', ''text/plain'') \<notin> set [(''accept'', ''application/json'')]"
proof -
  have "rewrite_body ascii_json example_args two_accepts = Inr []"
    by (simp add: rewrite_body_def two_accepts_def)
  then have "map c_headers (fst (proxy ascii_json echo_client example_args (str_lit ''v1/models'') two_accepts))
      = [forward_headers (headers two_accepts)]"
    by (simp add: proxy_calls)
  moreover have "forward_headers (headers two_accepts) = [(''accept'', ''application/json'')]"
    by (simp add: two_accepts_def eval_headers)
  ultimately show ?thesis
    by (simp add: two_accepts_def str_lower_def lower_char_def)
qed

text \<open>
  C8, amended. In every upstream call no header name equals \<^verbatim>\<open>host\<close> or
  \<^verbatim>\<open>content-length\<close> once lower-cased, each name occurs once, and every other name of the
  request is sent with the value of its last line in the request (and only those names
  are sent); a request whose header names are pairwise distinct has all its other
  header lines passed through unchanged, in order.
\<close>

theorem forwarded_headers_last_line_wins:
  assumes "call \<in> set (fst (proxy lib client a path req))"
  shows "(\<forall>k v. (k, v) \<in> set (c_headers call) \<longrightarrow>
            str_lower k \<noteq> ''host'' \<and> str_lower k \<noteq> ''content-length'')
       \<and> distinct (map fst (c_headers call))
       \<and> (\<forall>k. map_of (c_headers call) k =
            (if str_lower k \<noteq> ''host'' \<and> str_lower k \<noteq> ''content-length''
             then map_of (rev (headers req)) k else None))
       \<and> (distinct (map fst (headers req)) \<longrightarrow>
            c_headers call =
              filter (\<lambda>kv. str_lower (fst kv) \<noteq> ''host'' \<and> str_lower (fst kv) \<noteq> ''content-length'')
                (headers req))"
proof -
  from proxy_call_cases [OF assms]
  have h: "c_headers call = foldl keep [] (headers req)"
    by (auto simp: forward_headers_keep)
  have 1: "\<forall>k v. (k, v) \<in> set (c_headers call) \<longrightarrow>
      str_lower k \<noteq> ''host'' \<and> str_lower k \<noteq> ''content-length''"
    using foldl_keep_forwarded [of _ _ "[]" "headers req"] unfolding h forwarded_def by simp
  have 2: "distinct (map fst (c_headers call))"
    unfolding h by (rule foldl_keep_distinct) simp
  have 3: "\<forall>k. map_of (c_headers call) k =
      (if str_lower k \<noteq> ''host'' \<and> str_lower k \<noteq> ''content-length''
       then map_of (rev (headers req)) k else None)"
    unfolding h by (simp add: foldl_keep_map_of forwarded_def split: option.splits)
  have 4: "distinct (map fst (headers req)) \<longrightarrow>
      c_headers call =
        filter (\<lambda>kv. str_lower (fst kv) \<noteq> ''host'' \<and> str_lower (fst kv) \<noteq> ''content-length'')
          (headers req)"
    unfolding h using foldl_keep_distinct_names [of "headers req" "[]"]
    by (simp add: forwarded_def)
  from 1 2 3 4 show ?thesis by blast
qed

theorem forwarded_headers_last_line_wins_witness:
  "fst (proxy ascii_json echo_client example_args (str_lit ''v1/models'') two_accepts) =
     [\<lparr>c_method = ''GET'', c_url = str_lit ''http://127.0.0.1:8000/v1/models'',
       c_headers = [(''accept'', ''application/json'')], c_content = [], c_timeout = 600\<rparr>]
   \<and> map_of [(''accept'', ''application/json'')] ''accept''
       = map_of (rev (headers two_accepts)) ''accept''
   \<and> map_of (rev (headers two_accepts)) ''accept'' = Some ''application/json''"
proof -
  let ?call = "\<lparr>c_method = ''GET'', c_url = str_lit ''http://127.0.0.1:8000/v1/models'',
       c_headers = [(''accept'', ''application/json'')], c_content = [], c_timeout = 600\<rparr>"
  have r: "rewrite_body ascii_json example_args two_accepts = Inr []"
    by (simp add: rewrite_body_def two_accepts_def)
  have f: "forward_headers (headers two_accepts) = [(''accept'', ''application/json'')]"
    by (simp add: two_accepts_def eval_headers)
  have c: "fst (proxy ascii_json echo_client example_args (str_lit ''v1/models'') two_accepts) = [?call]"
    by (simp add: proxy_calls [OF r] f) (simp add: two_accepts_def example_args_def str_lit_def)
  then have "?call \<in> set (fst (proxy ascii_json echo_client example_args (str_lit ''v1/models'') two_accepts))"
    by simp
  from forwarded_headers_last_line_wins
    [OF this, THEN conjunct2, THEN conjunct2, THEN conjunct1, THEN spec, of "''accept''"]
  have "map_of [(''accept'', ''application/json'')] ''accept'' = map_of (rev (headers two_accepts)) ''accept''"
    by (simp add: str_lower_def lower_char_def)
  with c show ?thesis by (simp add: two_accepts_def)
qed

text \<open>
  C9, as stated, fails. The headers returned are \<^verbatim>\<open>dict(resp.headers)\<close>, one entry for each
  name, and \<^verbatim>\<open>Response\<close> adds a \<^verbatim>\<open>content-length\<close> line when there is none: an upstream
  answer with the two lines \<^verbatim>\<open>set-cookie: a=1\<close> and \<^verbatim>\<open>set-cookie: b=2\<close> is returned with the
  one line \<^verbatim>\<open>set-cookie: a=1, b=2\<close> and a \<^verbatim>\<open>content-length\<close> line the upstream did not send.
\<close>

theorem repeated_response_header_merged:
  "r_headers two_cookies = [(''set-cookie'', ''a=1''), (''set-cookie'', ''b=2'')]
   \<and> proxy ascii_json cookie_client example_args (str_lit ''login'') scenario_C =
       ([\<lparr>c_method = ''GET'', c_url = str_lit ''http://127.0.0.1:8000/login'',
          c_headers = [(''x-smg-routing-key'', ''abc'')], c_content = [], c_timeout = 600\<rparr>],
        Inr \<lparr>status_code = 200,
             raw_headers = [(''set-cookie'', ''a=1, b=2''), (''content-length'', ''2'')],
             resp_body = ''ok''\<rparr>)
   \<and> [(''set-cookie'', ''a=1, b=2''), (''content-length'', ''2'')] \<noteq> r_headers two_cookies"
proof -
  let ?call = "\<lparr>c_method = ''GET'', c_url = str_lit ''http://127.0.0.1:8000/login'',
          c_headers = [(''x-smg-routing-key'', ''abc'')], c_content = [], c_timeout = 600\<rparr>"
  have c: "fst (proxy ascii_json cookie_client example_args (str_lit ''login'') scenario_C) = [?call]"
    by (simp add: plain_call_C str_lit_def)
  have "cookie_client ?call = Inr two_cookies" by (simp add: cookie_client_def)
  from proxy_response [OF c this]
  have "snd (proxy ascii_json cookie_client example_args (str_lit ''login'') scenario_C)
      = Inr \<lparr>status_code = 200,
             raw_headers = [(''set-cookie'', ''a=1, b=2''), (''content-length'', ''2'')],
             resp_body = ''ok''\<rparr>"
    by (simp add: relay_two_cookies)
  with c have "proxy ascii_json cookie_client example_args (str_lit ''login'') scenario_C =
      ([?call], Inr \<lparr>status_code = 200,
             raw_headers = [(''set-cookie'', ''a=1, b=2''), (''content-length'', ''2'')],
             resp_body = ''ok''\<rparr>)"
    by (metis prod.collapse)
  then show ?thesis by (simp add: two_cookies_def)
qed

text \<open>
  Three more answers that do not come back as they were sent. A header value of the two
  bytes C3 A9 is returned as the one byte E9; a header value holding the three bytes of
  U+20AC makes \<^verbatim>\<open>Response\<close> raise \<^verbatim>\<open>UnicodeEncodeError\<close>, so the caller gets no response of
  the upstream's at all; and a body sent with \<^verbatim>\<open>content-encoding: gzip\<close> is returned
  decompressed, with the upstream's \<^verbatim>\<open>content-encoding\<close> and \<^verbatim>\<open>content-length\<close> lines.
\<close>

lemma answers_not_relayed_verbatim:
  "snd (proxy lib (answering utf8_value_answer) example_args path scenario_C) =
     Inr \<lparr>status_code = 200,
          raw_headers = [(''x-name'', [CHR 0xE9]), (''content-length'', ''2'')],
          resp_body = ''ok''\<rparr>
   \<and> snd (proxy lib (answering wide_value_answer) example_args path scenario_C) =
     Inl UnicodeEncodeError
   \<and> snd (proxy lib (answering gzip_answer) example_args path scenario_C) =
     Inr \<lparr>status_code = 200,
          raw_headers = [(''content-encoding'', ''gzip''), (''content-length'', ''22'')],
          resp_body = ''ok''\<rparr>
   \<and> r_body gzip_answer \<noteq> ''ok''"
proof -
  have "\<And>resp. snd (proxy lib (answering resp) example_args path scenario_C) = relay resp"
    by (rule proxy_response [OF plain_call_C]) (simp add: answering_def)
  then show ?thesis
    by (simp add: relay_utf8_value relay_wide_value relay_gzip) (simp add: gzip_answer_def)
qed

text \<open>
  C9, amended. When the one upstream call is answered, the handler either raises
  \<^verbatim>\<open>UnicodeEncodeError\<close>, which happens exactly when a header value of the answer, decoded
  by \<^verbatim>\<open>httpx\<close> and joined over the lines of its name, has a code point above 255, or it
  returns a response with the status code of the answer, with \<^verbatim>\<open>resp.content\<close> as its body
  (the upstream body after \<^verbatim>\<open>httpx\<close> has undone its content codings), and with one header
  line for each lower-cased name of the answer, in the order of first occurrence, whose
  value is the decoded values of the lines of that name joined by a comma and a space
  and encoded as Latin-1; after these comes a \<^verbatim>\<open>content-length\<close> line for the body when
  the answer had none and the status code allows a body. When all header bytes of the
  answer are ASCII the values are the upstream's bytes, joined; when moreover the names
  are lower-case and pairwise distinct and a \<^verbatim>\<open>content-length\<close> line is among them, the
  header lines returned are the upstream's, line for line.
\<close>

theorem response_relayed_after_decoding:
  assumes "fst (proxy lib client a path req) = [call]" and "client call = Inr resp"
  shows "snd (proxy lib client a path req) =
           (case encode_headers (map (\<lambda>k. (k, httpx_getitem (r_headers resp) k))
                                     (httpx_keys (r_headers resp))) of
              Inl e \<Rightarrow> Inl UnicodeEncodeError
            | Inr raw \<Rightarrow>
                Inr \<lparr>status_code = r_status_code resp,
                     raw_headers =
                       raw @ content_length_line (r_status_code resp) (r_content resp) raw,
                     resp_body = r_content resp\<rparr>)
       \<and> ((\<exists>e. snd (proxy lib client a path req) = Inl e) \<longleftrightarrow>
            (\<exists>k \<in> set (httpx_keys (r_headers resp)).
               \<exists>n \<in> set (httpx_getitem (r_headers resp) k). 256 \<le> n))
       \<and> (httpx_encoding (r_headers resp) = Ascii \<longrightarrow>
            snd (proxy lib client a path req) =
              (let merged =
                     map (\<lambda>k. (k, join '', '' (map snd (filter (\<lambda>kv. str_lower (fst kv) = k)
                                                              (r_headers resp)))))
                         (httpx_keys (r_headers resp))
               in Inr \<lparr>status_code = r_status_code resp,
                       raw_headers =
                         merged @ content_length_line (r_status_code resp) (r_content resp) merged,
                       resp_body = r_content resp\<rparr>))
       \<and> (httpx_encoding (r_headers resp) = Ascii \<and> distinct (map fst (r_headers resp))
            \<and> (\<forall>k \<in> fst ` set (r_headers resp). str_lower k = k)
            \<and> ''content-length'' \<in> fst ` set (r_headers resp) \<longrightarrow>
            snd (proxy lib client a path req) =
              Inr \<lparr>status_code = r_status_code resp, raw_headers = r_headers resp,
                   resp_body = r_content resp\<rparr>)"
proof -
  have s: "snd (proxy lib client a path req) = relay resp"
    by (rule proxy_response [OF assms])
  have 1: "snd (proxy lib client a path req) =
           (case encode_headers (map (\<lambda>k. (k, httpx_getitem (r_headers resp) k))
                                     (httpx_keys (r_headers resp))) of
              Inl e \<Rightarrow> Inl UnicodeEncodeError
            | Inr raw \<Rightarrow>
                Inr \<lparr>status_code = r_status_code resp,
                     raw_headers =
                       raw @ content_length_line (r_status_code resp) (r_content resp) raw,
                     resp_body = r_content resp\<rparr>)"
    unfolding s by (rule relay_eq)
  have 2: "(\<exists>e. snd (proxy lib client a path req) = Inl e) \<longleftrightarrow>
            (\<exists>k \<in> set (httpx_keys (r_headers resp)).
               \<exists>n \<in> set (httpx_getitem (r_headers resp) k). 256 \<le> n)"
    unfolding s by (rule relay_fails_iff)
  have 3: "httpx_encoding (r_headers resp) = Ascii \<longrightarrow>
            snd (proxy lib client a path req) =
              (let merged =
                     map (\<lambda>k. (k, join '', '' (map snd (filter (\<lambda>kv. str_lower (fst kv) = k)
                                                              (r_headers resp)))))
                         (httpx_keys (r_headers resp))
               in Inr \<lparr>status_code = r_status_code resp,
                       raw_headers =
                         merged @ content_length_line (r_status_code resp) (r_content resp) merged,
                       resp_body = r_content resp\<rparr>)"
    unfolding s using relay_ascii by blast
  have 4: "httpx_encoding (r_headers resp) = Ascii \<and> distinct (map fst (r_headers resp))
            \<and> (\<forall>k \<in> fst ` set (r_headers resp). str_lower k = k)
            \<and> ''content-length'' \<in> fst ` set (r_headers resp) \<longrightarrow>
            snd (proxy lib client a path req) =
              Inr \<lparr>status_code = r_status_code resp, raw_headers = r_headers resp,
                   resp_body = r_content resp\<rparr>"
  proof
    assume h: "httpx_encoding (r_headers resp) = Ascii \<and> distinct (map fst (r_headers resp))
            \<and> (\<forall>k \<in> fst ` set (r_headers resp). str_lower k = k)
            \<and> ''content-length'' \<in> fst ` set (r_headers resp)"
    then have "content_length_line (r_status_code resp) (r_content resp) (r_headers resp) = []"
      by (simp add: content_length_line_def)
    with h show "snd (proxy lib client a path req) =
              Inr \<lparr>status_code = r_status_code resp, raw_headers = r_headers resp,
                   resp_body = r_content resp\<rparr>"
      unfolding s by (simp add: relay_plain)
  qed
  from 1 2 3 4 show ?thesis by blast
qed

theorem response_relayed_after_decoding_witness:
  "fst (proxy ascii_json (answering mixed_case_answer) example_args (str_lit ''v1/models'') scenario_C) =
     [\<lparr>c_method = ''GET'', c_url = str_lit ''http://127.0.0.1:8000/v1/models'',
       c_headers = [(''x-smg-routing-key'', ''abc'')], c_content = [], c_timeout = 600\<rparr>]
   \<and> r_headers mixed_case_answer =
       [(''Content-Type'', ''text/plain''), (''Vary'', ''accept''), (''vary'', ''origin'')]
   \<and> httpx_encoding (r_headers mixed_case_answer) = Ascii
   \<and> snd (proxy ascii_json (answering mixed_case_answer) example_args (str_lit ''v1/models'')
          scenario_C) =
       Inr \<lparr>status_code = 200,
            raw_headers = [(''content-type'', ''text/plain''), (''vary'', ''accept, origin''),
                           (''content-length'', ''2'')],
            resp_body = ''ok''\<rparr>"
proof -
  let ?call = "\<lparr>c_method = ''GET'', c_url = str_lit ''http://127.0.0.1:8000/v1/models'',
       c_headers = [(''x-smg-routing-key'', ''abc'')], c_content = [], c_timeout = 600\<rparr>"
  have c: "fst (proxy ascii_json (answering mixed_case_answer) example_args (str_lit ''v1/models'')
      scenario_C) = [?call]"
    by (simp add: plain_call_C str_lit_def)
  have e: "answering mixed_case_answer ?call = Inr mixed_case_answer"
    by (simp add: answering_def)
  have a: "httpx_encoding (r_headers mixed_case_answer) = Ascii"
    by (simp add: mixed_case_answer_def httpx_encoding_def is_ascii_def)
  have k: "httpx_keys (r_headers mixed_case_answer) = [''content-type'', ''vary'']"
    by (simp add: mixed_case_answer_def eval_httpx)
  from response_relayed_after_decoding [OF c e, THEN conjunct2, THEN conjunct2, THEN conjunct1] a
  have "snd (proxy ascii_json (answering mixed_case_answer) example_args (str_lit ''v1/models'')
          scenario_C) =
       Inr \<lparr>status_code = 200,
            raw_headers = [(''content-type'', ''text/plain''), (''vary'', ''accept, origin''),
                           (''content-length'', ''2'')],
            resp_body = ''ok''\<rparr>"
    unfolding k
    by (simp add: mixed_case_answer_def Let_def content_length_line_def nat_digits_Suc_Suc_0
        str_lower_def lower_char_def char_of_eq_iff)
  with c a show ?thesis by (simp add: mixed_case_answer_def)
qed

text \<open>
  C10. The URL of every upstream call is the backend base URL, a slash, and the path
  parameter of the route (the request path after its leading slash); the method is the
  request's. The query string of the request is never read: a request that differs in
  its query string only gives the same upstream call and the same result.
\<close>

theorem upstream_url_is_backend_slash_path:
  assumes "call \<in> set (fst (proxy lib client a path req))"
  shows "c_url call = backend a @ str_lit ''/'' @ path
       \<and> c_method call = method req
       \<and> (\<forall>q. proxy lib client a path (req\<lparr>query_string := q\<rparr>) = proxy lib client a path req)"
proof -
  from proxy_call_cases [OF assms] have "c_url call = backend a @ str_lit ''/'' @ path"
    and "c_method call = method req"
    by auto
  moreover have "\<forall>q. proxy lib client a path (req\<lparr>query_string := q\<rparr>) = proxy lib client a path req"
    by (simp add: proxy_query)
  ultimately show ?thesis by blast
qed

theorem upstream_url_is_backend_slash_path_witness:
  "query_string scenario_C = ''verbose=1''
   \<and> map c_url (fst (proxy ascii_json echo_client example_args (str_lit ''v1/models'') scenario_C))
       = [str_lit ''http://127.0.0.1:8000/v1/models'']
   \<and> proxy ascii_json echo_client example_args (str_lit ''v1/models'') (scenario_C\<lparr>query_string := []\<rparr>)
       = proxy ascii_json echo_client example_args (str_lit ''v1/models'') scenario_C"
proof -
  have r: "rewrite_body ascii_json example_args scenario_C = Inr []"
    by (simp add: rewrite_body_def scenario_C_def)
  let ?call = "\<lparr>c_method = method scenario_C,
       c_url = backend example_args @ str_lit ''/'' @ str_lit ''v1/models'',
       c_headers = forward_headers (headers scenario_C), c_content = [],
       c_timeout = timeout example_args\<rparr>"
  have c: "fst (proxy ascii_json echo_client example_args (str_lit ''v1/models'') scenario_C) = [?call]"
    by (rule proxy_calls [OF r])
  then have "?call \<in> set (fst (proxy ascii_json echo_client example_args (str_lit ''v1/models'') scenario_C))"
    by simp
  from upstream_url_is_backend_slash_path [OF this]
  have "proxy ascii_json echo_client example_args (str_lit ''v1/models'') (scenario_C\<lparr>query_string := []\<rparr>)
       = proxy ascii_json echo_client example_args (str_lit ''v1/models'') scenario_C"
    by blast
  moreover have "map c_url (fst (proxy ascii_json echo_client example_args (str_lit ''v1/models'') scenario_C))
       = [str_lit ''http://127.0.0.1:8000/v1/models'']"
    unfolding c by (simp add: example_args_def str_lit_def)
  moreover have "query_string scenario_C = ''verbose=1''" by (simp add: scenario_C_def)
  ultimately show ?thesis by blast
qed

end
